theory Spec2Isabelle
  imports Main "HOL-Library.AList"
begin

section \<open>Values, errors and credentials\<close>

text \<open>
  The collections of \<open>basic_auth/collection.py\<close> work on JSON-like resource details:
  a dict from field names to values, where the values that matter here are strings
  and \<open>None\<close>. User ids are such values too (\<open>details['user']\<close>).
\<close>

datatype pyval = PNone | PStr string

type_synonym details = "string \<rightharpoonup> pyval"

datatype error =
    ResourceAlreadyExists pyval
  | ResourceNotFound pyval
  | InvalidResourceDetails
  | MalformedToken
  | KeyError string
  | AttributeError

text \<open>\<open>BasicAuthCredentials\<close> is a pair of a username and a password.\<close>

datatype credentials = BasicAuthCredentials (username: string) (password: string)

text \<open>\<open>details.get(key)\<close>: a missing key reads as \<open>None\<close>.\<close>

definition details_get :: "details \<Rightarrow> string \<Rightarrow> pyval" where
  "details_get d key = (case d key of None \<Rightarrow> PNone | Some v \<Rightarrow> v)"

text \<open>\<open>details[key]\<close>: a missing key raises \<open>KeyError\<close>.\<close>

definition details_item :: "details \<Rightarrow> string \<Rightarrow> error + pyval" where
  "details_item d key = (case d key of None \<Rightarrow> Inl (KeyError key) | Some v \<Rightarrow> Inr v)"

subsection \<open>Strings: \<open>split(':')\<close> and \<open>':'.join\<close>\<close>

text \<open>Python's \<open>str.split(':')\<close>: the parts between the colons, never an empty list.\<close>

fun split_colon :: "string \<Rightarrow> string list" where
  "split_colon [] = [[]]"
| "split_colon (c # cs) =
     (if c = CHR '':'' then [] # split_colon cs
      else (case split_colon cs of [] \<Rightarrow> [[c]] | p # ps \<Rightarrow> (c # p) # ps))"

fun join_colon :: "string list \<Rightarrow> string" where
  "join_colon [] = []"
| "join_colon [p] = p"
| "join_colon (p # q # ps) = p @ CHR '':'' # join_colon (q # ps)"

definition colon_free :: "string \<Rightarrow> bool" where
  "colon_free s = (CHR '':'' \<notin> set s)"

subsection \<open>The credential codec\<close>

text \<open>
  Modelled from the spec: \<open>BasicAuthCredentials.from_token\<close> (module \<open>credential\<close>, whose
  source is outside \<open>collection.py\<close>). The spec's \<open>parse\<close> "splits on the first \<open>:\<close>; fails
  with \<open>MalformedToken\<close> if not exactly two non-empty parts", and takes the
  second part as the password as it stands.
\<close>

definition from_token :: "string \<Rightarrow> error + credentials" where
  "from_token token =
     (let u = takeWhile (\<lambda>c. c \<noteq> CHR '':'') token;
          r = dropWhile (\<lambda>c. c \<noteq> CHR '':'') token
      in if r = [] \<or> u = [] \<or> tl r = [] then Inl MalformedToken
         else Inr (BasicAuthCredentials u (tl r)))"

text \<open>
  Modelled from the spec: \<open>BasicAuthCredentials.__str__\<close>, the token
  \<open>username:password\<close> of a pair.
\<close>

definition str_auth :: "credentials \<Rightarrow> string" where
  "str_auth a = username a @ CHR '':'' # password a"

text \<open>
  \<open>_prep_token\<close>. The digest \<open>hash_token256\<close> is imported from the module
  \<open>credential\<close>; it is a parameter of every definition that hashes.
\<close>

definition prep_token :: "(string \<Rightarrow> string) \<Rightarrow> pyval \<Rightarrow> pyval" where
  "prep_token hash_token256 token =
     (case token of
        PNone \<Rightarrow> PNone
      | PStr t \<Rightarrow>
          (let split = split_colon t
           in if length split = 2 \<and> [] \<notin> set split
              then PStr (join_colon (split[1 := hash_token256 (split ! 1)]))
              else PStr t))"

text \<open>
  \<open>_get_auth\<close>. A token that is \<open>None\<close> or the empty string is falsy, and then
  \<open>BasicAuthCredentials.generate()\<close> supplies a pair; the pair that call returns is
  the parameter \<open>generated\<close>.
\<close>

definition get_auth :: "credentials \<Rightarrow> pyval \<Rightarrow> error + credentials" where
  "get_auth generated token =
     (case token of
        PNone \<Rightarrow> Inr generated
      | PStr t \<Rightarrow> (if t \<noteq> [] then from_token t else Inr generated))"

text \<open>
  A stand-in digest for evaluating the model at concrete inputs: two hexadecimal
  digits of a checksum. Like a hexadecimal digest it is never empty and has no colon.
\<close>

definition hex_digit :: "nat \<Rightarrow> char" where
  "hex_digit n = ''0123456789abcdef'' ! (n mod 16)"

definition checksum_hex :: "string \<Rightarrow> string" where
  "checksum_hex s =
     (let n = foldl (\<lambda>a c. (a * 31 + of_char c) mod 256) 7 s
      in [hex_digit (n div 16), hex_digit n])"

section \<open>The in-memory collection\<close>

text \<open>
  \<open>MemoryCredentialsCollection\<close> keeps \<open>self.items\<close>, an ordered mapping from the
  user id to the stored details, and \<open>self.lock\<close>. The store records the sequence of
  lock events: an acquisition of the lock, a release of it, and, between or
  outside them, the run of the statements of a method (\<open>Body\<close>).
\<close>

datatype lock_event = Acquire | Body | Release

record memory_store =
  items :: "(pyval \<times> details) list"
  lock_events :: "lock_event list"

definition empty_store :: memory_store where
  "empty_store = \<lparr>items = [], lock_events = []\<rparr>"

text \<open>
  Modelled from the spec: the decorator \<open>locking\<close> (module \<open>lock\<close>, whose source is
  outside \<open>collection.py\<close>): the lock is taken at entry, held for the whole body and released
  on every exit path, the error paths included.
\<close>

definition locking ::
  "(memory_store \<Rightarrow> memory_store \<times> (error + 'a)) \<Rightarrow> memory_store \<Rightarrow> memory_store \<times> (error + 'a)"
where
  "locking body st =
     (case body (st\<lparr>lock_events := lock_events st @ [Acquire]\<rparr>) of
        (st', r) \<Rightarrow> (st'\<lparr>lock_events := lock_events st' @ [Release]\<rparr>, r))"

text \<open>
  The statements of a method of the collection: the store records that they run,
  at the point where they run.
\<close>

definition method_body ::
  "(memory_store \<Rightarrow> memory_store \<times> (error + 'a)) \<Rightarrow> memory_store \<Rightarrow> memory_store \<times> (error + 'a)"
where
  "method_body body st = body (st\<lparr>lock_events := lock_events st @ [Body]\<rparr>)"

text \<open>
  Modelled from the spec: the generic keyed store \<open>SampleResourceCollection\<close> (module
  \<open>api.sample\<close>, whose source is outside \<open>collection.py\<close>), with \<open>id_field = 'user'\<close>: insert
  fails with \<open>AlreadyExists\<close> if the key is present; get, update and delete fail
  with \<open>NotFound\<close> if it is absent; update overwrites the stored details.
\<close>

definition sample_create ::
  "details \<Rightarrow> memory_store \<Rightarrow> memory_store \<times> (error + pyval \<times> details)"
where
  "sample_create d st =
     (case details_item d ''user'' of
        Inl e \<Rightarrow> (st, Inl e)
      | Inr res_id \<Rightarrow>
          if res_id \<in> set (map fst (items st))
          then (st, Inl (ResourceAlreadyExists res_id))
          else (st\<lparr>items := AList.update res_id d (items st)\<rparr>, Inr (res_id, d)))"


text \<open>
  Modelled from the spec: \<open>SampleResourceCollection.update\<close>: \<open>NotFound\<close> if the key is
  absent, otherwise the stored details are overwritten.
\<close>

definition sample_update ::
  "pyval \<Rightarrow> details \<Rightarrow> memory_store \<Rightarrow> memory_store \<times> (error + details)"
where
  "sample_update res_id d st =
     (if res_id \<in> set (map fst (items st))
      then (st\<lparr>items := AList.update res_id d (items st)\<rparr>, Inr d)
      else (st, Inl (ResourceNotFound res_id)))"

text \<open>
  Modelled from the spec: \<open>SampleResourceCollection.delete\<close>: \<open>NotFound\<close> if the key is
  absent, otherwise the record is removed.
\<close>

definition sample_delete :: "pyval \<Rightarrow> memory_store \<Rightarrow> memory_store \<times> (error + unit)" where
  "sample_delete res_id st =
     (if res_id \<in> set (map fst (items st))
      then (st\<lparr>items := AList.delete res_id (items st)\<rparr>, Inr ())
      else (st, Inl (ResourceNotFound res_id)))"


text \<open>
  \<open>MemoryCredentialsCollection._check_duplicated_username\<close>: the scan of
  \<open>self.items.items()\<close>, in order. Reading \<open>details['token']\<close> and parsing it can
  raise before the comparison is reached.
\<close>

fun check_duplicated_username :: "(pyval \<times> details) list \<Rightarrow> pyval \<Rightarrow> string \<Rightarrow> error + unit"
where
  "check_duplicated_username [] user uname = Inr ()"
| "check_duplicated_username ((other_user, d) # rest) user uname =
     (case details_item d ''token'' of
        Inl e \<Rightarrow> Inl e
      | Inr PNone \<Rightarrow> Inl AttributeError
      | Inr (PStr t) \<Rightarrow>
          (case from_token t of
             Inl e \<Rightarrow> Inl e
           | Inr other \<Rightarrow>
               if username other = uname \<and> user \<noteq> other_user
               then Inl InvalidResourceDetails
               else check_duplicated_username rest user uname))"

definition mem_create_body ::
  "(string \<Rightarrow> string) \<Rightarrow> credentials \<Rightarrow> details \<Rightarrow> memory_store
     \<Rightarrow> memory_store \<times> (error + pyval \<times> details)"
where
  "mem_create_body hash_token256 generated d st =
     (let token = prep_token hash_token256 (details_get d ''token'')
      in case get_auth generated token of
           Inl e \<Rightarrow> (st, Inl e)
         | Inr a \<Rightarrow>
             (case details_item d ''user'' of
                Inl e \<Rightarrow> (st, Inl e)
              | Inr user \<Rightarrow>
                  (case check_duplicated_username (items st) user (username a) of
                     Inl e \<Rightarrow> (st, Inl e)
                   | Inr _ \<Rightarrow> sample_create (d(''token'' \<mapsto> PStr (str_auth a))) st)))"

definition mem_create ::
  "(string \<Rightarrow> string) \<Rightarrow> credentials \<Rightarrow> details \<Rightarrow> memory_store
     \<Rightarrow> memory_store \<times> (error + pyval \<times> details)"
where
  "mem_create hash_token256 generated d =
     locking (method_body (mem_create_body hash_token256 generated d))"


definition mem_update_body ::
  "(string \<Rightarrow> string) \<Rightarrow> credentials \<Rightarrow> pyval \<Rightarrow> details \<Rightarrow> memory_store
     \<Rightarrow> memory_store \<times> (error + details)"
where
  "mem_update_body hash_token256 generated user d st =
     (let token = prep_token hash_token256 (details_get d ''token'')
      in case get_auth generated token of
           Inl e \<Rightarrow> (st, Inl e)
         | Inr a \<Rightarrow>
             (case check_duplicated_username (items st) user (username a) of
                Inl e \<Rightarrow> (st, Inl e)
              | Inr _ \<Rightarrow> sample_update user (d(''token'' \<mapsto> PStr (str_auth a))) st))"

definition mem_update ::
  "(string \<Rightarrow> string) \<Rightarrow> credentials \<Rightarrow> pyval \<Rightarrow> details \<Rightarrow> memory_store
     \<Rightarrow> memory_store \<times> (error + details)"
where
  "mem_update hash_token256 generated user d =
     locking (method_body (mem_update_body hash_token256 generated user d))"

definition mem_delete :: "pyval \<Rightarrow> memory_store \<Rightarrow> memory_store \<times> (error + unit)" where
  "mem_delete res_id = locking (method_body (sample_delete res_id))"


text \<open>The list \<open>[details['token'] for details in self.items.values()]\<close>.\<close>

fun stored_tokens :: "(pyval \<times> details) list \<Rightarrow> error + pyval list" where
  "stored_tokens [] = Inr []"
| "stored_tokens ((k, d) # rest) =
     (case details_item d ''token'' of
        Inl e \<Rightarrow> Inl e
      | Inr t \<Rightarrow> (case stored_tokens rest of Inl e \<Rightarrow> Inl e | Inr ts \<Rightarrow> Inr (t # ts)))"

definition mem_credentials_match_body ::
  "(string \<Rightarrow> string) \<Rightarrow> string \<Rightarrow> string \<Rightarrow> memory_store \<Rightarrow> memory_store \<times> (error + bool)"
where
  "mem_credentials_match_body hash_token256 uname pw st =
     (case stored_tokens (items st) of
        Inl e \<Rightarrow> (st, Inl e)
      | Inr credentials \<Rightarrow>
          (st, Inr (PStr (uname @ CHR '':'' # hash_token256 pw) \<in> set credentials)))"

definition mem_credentials_match ::
  "(string \<Rightarrow> string) \<Rightarrow> string \<Rightarrow> string \<Rightarrow> memory_store \<Rightarrow> memory_store \<times> (error + bool)"
where
  "mem_credentials_match hash_token256 uname pw =
     locking (method_body (mem_credentials_match_body hash_token256 uname pw))"



section \<open>The database-backed collection\<close>

text \<open>
  Modelled from the spec: the persistence model (module \<open>db\<close>, whose source is
  outside \<open>collection.py\<close>). Its records expose \<open>user\<close> and \<open>auth\<close>; the model is a table of
  such records. Per the spec's data model the digest is "the only password form ever
  persisted" and a plaintext password "must never be persisted as-is", while the
  collection hands the model the password of the token as submitted: the model
  persists the digest of the password it is given, and \<open>password_match\<close> compares
  the supplied password's hash to the stored hash.
\<close>

datatype db_credentials = Credentials (user: pyval) (auth: credentials)

type_synonym model = "db_credentials list"

text \<open>
  Modelled from the spec: \<open>model.is_known_user(user) -> bool\<close>, whether the model has a
  record of the user.
\<close>

definition is_known_user :: "model \<Rightarrow> pyval \<Rightarrow> bool" where
  "is_known_user m u = (\<exists>c \<in> set m. user c = u)"

text \<open>
  Modelled from the spec: \<open>model.add_credentials(user, username, password)\<close>, which
  adds a record keeping the digest of the password.
\<close>

definition add_credentials ::
  "(string \<Rightarrow> string) \<Rightarrow> model \<Rightarrow> pyval \<Rightarrow> string \<Rightarrow> string \<Rightarrow> model"
where
  "add_credentials hash_token256 m u uname pw =
     m @ [Credentials u (BasicAuthCredentials uname (hash_token256 pw))]"

text \<open>
  Modelled from the spec: \<open>model.get_credentials(user=...) -> record|none\<close>.
\<close>

definition get_credentials_by_user :: "model \<Rightarrow> pyval \<Rightarrow> db_credentials option" where
  "get_credentials_by_user m u = find (\<lambda>c. user c = u) m"

text \<open>
  Modelled from the spec: \<open>model.get_credentials(username=...) -> record|none\<close>.
\<close>

definition get_credentials_by_username :: "model \<Rightarrow> string \<Rightarrow> db_credentials option" where
  "get_credentials_by_username m uname = find (\<lambda>c. username (auth c) = uname) m"

text \<open>
  Modelled from the spec: \<open>model.update_credentials(user, username, password)\<close>, which
  replaces the username and the digest in the record of the user.
\<close>

definition update_credentials ::
  "(string \<Rightarrow> string) \<Rightarrow> model \<Rightarrow> pyval \<Rightarrow> string \<Rightarrow> string \<Rightarrow> model"
where
  "update_credentials hash_token256 m u uname pw =
     map (\<lambda>c. if user c = u
              then Credentials u (BasicAuthCredentials uname (hash_token256 pw))
              else c) m"

text \<open>
  Modelled from the spec: \<open>model.remove_credentials(user) -> bool\<close>, which removes the
  record of the user and tells whether there was one.
\<close>

definition remove_credentials :: "model \<Rightarrow> pyval \<Rightarrow> model \<times> bool" where
  "remove_credentials m u = (filter (\<lambda>c. user c \<noteq> u) m, is_known_user m u)"

text \<open>
  Modelled from the spec: the record's \<open>password_match(password) -> bool\<close>, which
  compares the hash of the supplied password to the stored hash.
\<close>

definition password_match :: "(string \<Rightarrow> string) \<Rightarrow> db_credentials \<Rightarrow> string \<Rightarrow> bool" where
  "password_match hash_token256 c pw = (password (auth c) = hash_token256 pw)"

text \<open>
  Modelled from the spec: the decorator \<open>transact\<close> (module \<open>db\<close>, whose source is
  outside \<open>collection.py\<close>): the body runs in a transaction, committed on success and rolled
  back on failure.
\<close>

definition transact :: "(model \<Rightarrow> model \<times> (error + 'a)) \<Rightarrow> model \<Rightarrow> model \<times> (error + 'a)" where
  "transact body m = (case body m of (m', Inl e) \<Rightarrow> (m, Inl e) | (m', Inr r) \<Rightarrow> (m', Inr r))"

text \<open>\<open>DataBaseCredentialsCollection._check_duplicated_username\<close>.\<close>

definition db_check_duplicated_username :: "model \<Rightarrow> pyval \<Rightarrow> string \<Rightarrow> error + unit" where
  "db_check_duplicated_username m u uname =
     (case get_credentials_by_username m uname of
        None \<Rightarrow> Inr ()
      | Some c \<Rightarrow> if user c \<noteq> u then Inl InvalidResourceDetails else Inr ())"

definition db_create_body ::
  "(string \<Rightarrow> string) \<Rightarrow> credentials \<Rightarrow> details \<Rightarrow> model \<Rightarrow> model \<times> (error + pyval \<times> details)"
where
  "db_create_body hash_token256 generated d m =
     (case details_item d ''user'' of
        Inl e \<Rightarrow> (m, Inl e)
      | Inr u \<Rightarrow>
          if is_known_user m u then (m, Inl (ResourceAlreadyExists u))
          else
            (case get_auth generated (details_get d ''token'') of
               Inl e \<Rightarrow> (m, Inl e)
             | Inr a \<Rightarrow>
                 (case db_check_duplicated_username m u (username a) of
                    Inl e \<Rightarrow> (m, Inl e)
                  | Inr _ \<Rightarrow>
                      (add_credentials hash_token256 m u (username a) (password a),
                       Inr (u, [''user'' \<mapsto> u, ''token'' \<mapsto> PStr (str_auth a)])))))"

definition db_create ::
  "(string \<Rightarrow> string) \<Rightarrow> credentials \<Rightarrow> details \<Rightarrow> model \<Rightarrow> model \<times> (error + pyval \<times> details)"
where
  "db_create hash_token256 generated d = transact (db_create_body hash_token256 generated d)"

definition db_delete_body :: "pyval \<Rightarrow> model \<Rightarrow> model \<times> (error + unit)" where
  "db_delete_body u m =
     (case remove_credentials m u of
        (m', removed) \<Rightarrow> if removed then (m', Inr ()) else (m', Inl (ResourceNotFound u)))"

definition db_delete :: "pyval \<Rightarrow> model \<Rightarrow> model \<times> (error + unit)" where
  "db_delete u = transact (db_delete_body u)"

definition db_get_body :: "pyval \<Rightarrow> model \<Rightarrow> model \<times> (error + details)" where
  "db_get_body u m =
     (case get_credentials_by_user m u of
        None \<Rightarrow> (m, Inl (ResourceNotFound u))
      | Some c \<Rightarrow> (m, Inr [''user'' \<mapsto> u, ''token'' \<mapsto> PStr (str_auth (auth c))]))"

definition db_get :: "pyval \<Rightarrow> model \<Rightarrow> model \<times> (error + details)" where
  "db_get u = transact (db_get_body u)"

definition db_update_body ::
  "(string \<Rightarrow> string) \<Rightarrow> credentials \<Rightarrow> pyval \<Rightarrow> details \<Rightarrow> model \<Rightarrow> model \<times> (error + details)"
where
  "db_update_body hash_token256 generated u d m =
     (if \<not> is_known_user m u then (m, Inl (ResourceNotFound u))
      else
        (case get_auth generated (details_get d ''token'') of
           Inl e \<Rightarrow> (m, Inl e)
         | Inr a \<Rightarrow>
             (case db_check_duplicated_username m u (username a) of
                Inl e \<Rightarrow> (m, Inl e)
              | Inr _ \<Rightarrow>
                  (update_credentials hash_token256 m u (username a) (password a),
                   Inr [''user'' \<mapsto> u, ''token'' \<mapsto> PStr (str_auth a)]))))"

definition db_update ::
  "(string \<Rightarrow> string) \<Rightarrow> credentials \<Rightarrow> pyval \<Rightarrow> details \<Rightarrow> model \<Rightarrow> model \<times> (error + details)"
where
  "db_update hash_token256 generated u d =
     transact (db_update_body hash_token256 generated u d)"

definition db_credentials_match_body ::
  "(string \<Rightarrow> string) \<Rightarrow> string \<Rightarrow> string \<Rightarrow> model \<Rightarrow> model \<times> (error + bool)"
where
  "db_credentials_match_body hash_token256 uname pw m =
     (case get_credentials_by_username m uname of
        None \<Rightarrow> (m, Inr False)
      | Some c \<Rightarrow> (m, Inr (password_match hash_token256 c pw)))"

definition db_credentials_match ::
  "(string \<Rightarrow> string) \<Rightarrow> string \<Rightarrow> string \<Rightarrow> model \<Rightarrow> model \<times> (error + bool)"
where
  "db_credentials_match hash_token256 uname pw =
     transact (db_credentials_match_body hash_token256 uname pw)"

section \<open>Concurrent calls of the in-memory collection\<close>











section \<open>Invariants, runs and sample data\<close>

text \<open>A pair is well-formed if its token parses back to it.\<close>

definition wellformed :: "credentials \<Rightarrow> bool" where
  "wellformed a = (username a \<noteq> [] \<and> colon_free (username a) \<and> password a \<noteq> [])"

text \<open>The pair embedded in the token of a stored record, if the token parses.\<close>

definition stored_auth :: "details \<Rightarrow> credentials option" where
  "stored_auth d =
     (case d ''token'' of
        Some (PStr t) \<Rightarrow> (case from_token t of Inl e \<Rightarrow> None | Inr a \<Rightarrow> Some a)
      | _ \<Rightarrow> None)"

definition wf_items :: "(pyval \<times> details) list \<Rightarrow> bool" where
  "wf_items its = (\<forall>(k, d) \<in> set its. stored_auth d \<noteq> None)"

definition unique_usernames :: "(pyval \<times> details) list \<Rightarrow> bool" where
  "unique_usernames its =
     (\<forall>(k1, d1) \<in> set its. \<forall>(k2, d2) \<in> set its.
        k1 \<noteq> k2 \<longrightarrow> stored_auth d1 \<noteq> None \<longrightarrow>
        map_option username (stored_auth d1) \<noteq> map_option username (stored_auth d2))"

text \<open>The details carry no usable token: no key, \<open>None\<close>, or the empty string.\<close>

definition token_missing :: "details \<Rightarrow> bool" where
  "token_missing d =
     (d ''token'' = None \<or> d ''token'' = Some PNone \<or> d ''token'' = Some (PStr []))"

definition store_invariant :: "(pyval \<times> details) list \<Rightarrow> bool" where
  "store_invariant its = (distinct (map fst its) \<and> wf_items its \<and> unique_usernames its)"

text \<open>Some record of another user carries the username.\<close>

definition owned_by_other :: "(pyval \<times> details) list \<Rightarrow> pyval \<Rightarrow> string \<Rightarrow> bool" where
  "owned_by_other its u uname =
     (\<exists>(k, d) \<in> set its. k \<noteq> u \<and> map_option username (stored_auth d) = Some uname)"

definition db_unique_usernames :: "model \<Rightarrow> bool" where
  "db_unique_usernames m =
     (\<forall>c1 \<in> set m. \<forall>c2 \<in> set m.
        user c1 \<noteq> user c2 \<longrightarrow> username (auth c1) \<noteq> username (auth c2))"

definition db_invariant :: "model \<Rightarrow> bool" where
  "db_invariant m = (distinct (map user m) \<and> db_unique_usernames m)"

definition db_owned_by_other :: "model \<Rightarrow> pyval \<Rightarrow> string \<Rightarrow> bool" where
  "db_owned_by_other m u uname = (\<exists>c \<in> set m. user c \<noteq> u \<and> username (auth c) = uname)"

text \<open>
  A sequence of calls; each create and update carries the pair that \<open>generate()\<close>
  would return during the call. A call that raises leaves the caller with the store
  as it is then.
\<close>

datatype operation =
    Create credentials details
  | Update credentials pyval details
  | Delete pyval

fun generated_ok :: "operation \<Rightarrow> bool" where
  "generated_ok (Create g d) = wellformed g"
| "generated_ok (Update g u d) = wellformed g"
| "generated_ok (Delete u) = True"

fun mem_step :: "(string \<Rightarrow> string) \<Rightarrow> memory_store \<Rightarrow> operation \<Rightarrow> memory_store" where
  "mem_step H st (Create g d) = fst (mem_create H g d st)"
| "mem_step H st (Update g u d) = fst (mem_update H g u d st)"
| "mem_step H st (Delete u) = fst (mem_delete u st)"

definition mem_run :: "(string \<Rightarrow> string) \<Rightarrow> operation list \<Rightarrow> memory_store \<Rightarrow> memory_store" where
  "mem_run H ops st = foldl (mem_step H) st ops"

fun db_step :: "(string \<Rightarrow> string) \<Rightarrow> model \<Rightarrow> operation \<Rightarrow> model" where
  "db_step H m (Create g d) = fst (db_create H g d m)"
| "db_step H m (Update g u d) = fst (db_update H g u d m)"
| "db_step H m (Delete u) = fst (db_delete u m)"

definition db_run :: "(string \<Rightarrow> string) \<Rightarrow> operation list \<Rightarrow> model \<Rightarrow> model" where
  "db_run H ops m = foldl (db_step H) m ops"

text \<open>The concrete scenario of the spec, and a pair as \<open>generate()\<close> might return it.\<close>

definition alice :: pyval where
  "alice = PStr ''alice''"

definition bob :: pyval where
  "bob = PStr ''bob''"

definition alice_details :: details where
  "alice_details = [''user'' \<mapsto> alice, ''token'' \<mapsto> PStr ''alice_login:secret'']"

definition bob_details :: details where
  "bob_details = [''user'' \<mapsto> bob, ''token'' \<mapsto> PStr ''alice_login:other'']"

definition generated_pair :: credentials where
  "generated_pair = BasicAuthCredentials ''k3x9v'' ''q7w2e5r8''"

definition alice_store :: memory_store where
  "alice_store =
     \<lparr>items = [(alice, [''user'' \<mapsto> alice, ''token'' \<mapsto> PStr ''alice_login:77''])],
      lock_events = []\<rparr>"

definition alice_bob_model :: model where
  "alice_bob_model =
     [Credentials alice (BasicAuthCredentials ''alice_login'' ''77''),
      Credentials bob (BasicAuthCredentials ''bob_login'' ''98'')]"

definition alice_model :: model where
  "alice_model = [Credentials alice (BasicAuthCredentials ''alice_login'' ''77'')]"

text \<open>A run of the scenario, continued by an update and a delete.\<close>

definition scenario :: "operation list" where
  "scenario =
     [Create generated_pair alice_details, Create generated_pair bob_details,
      Update generated_pair alice [''token'' \<mapsto> PStr ''al:pw''], Delete bob]"

section \<open>Splitting and joining\<close>

lemma split_colon_nonempty: "split_colon s \<noteq> []"
  by (induction s) (auto split: list.splits)

lemma split_colon_colon_free: "colon_free s \<Longrightarrow> split_colon s = [s]"
  by (induction s) (auto simp: colon_free_def)

lemma split_colon_append:
  "colon_free u \<Longrightarrow> split_colon (u @ CHR '':'' # r) = u # split_colon r"
  by (induction u) (auto simp: colon_free_def)

lemma split_colon_two:
  "colon_free u \<Longrightarrow> colon_free p \<Longrightarrow> split_colon (u @ CHR '':'' # p) = [u, p]"
  by (simp add: split_colon_append split_colon_colon_free)

lemma split_colon_single: "split_colon s = [p] \<Longrightarrow> colon_free s \<and> p = s"
proof (induction s arbitrary: p)
  case Nil
  then show ?case by (simp add: colon_free_def)
next
  case (Cons c cs)
  show ?case
  proof (cases "c = CHR '':''")
    case True
    with Cons.prems split_colon_nonempty [of cs] show ?thesis by simp
  next
    case False
    with Cons.prems split_colon_nonempty [of cs]
    obtain q where q: "split_colon cs = [q]" "p = c # q"
      by (auto split: list.splits)
    with Cons.IH [of q] False show ?thesis by (simp add: colon_free_def)
  qed
qed

lemma split_colon_pair:
  "split_colon s = [u, p] \<Longrightarrow> s = u @ CHR '':'' # p \<and> colon_free u \<and> colon_free p"
proof (induction s arbitrary: u)
  case Nil
  then show ?case by simp
next
  case (Cons c cs)
  show ?case
  proof (cases "c = CHR '':''")
    case True
    with Cons.prems have "u = []" "split_colon cs = [p]" by simp_all
    with split_colon_single [of cs p] True show ?thesis by (simp add: colon_free_def)
  next
    case False
    with Cons.prems split_colon_nonempty [of cs]
    obtain q where q: "split_colon cs = [q, p]" "u = c # q"
      by (auto split: list.splits)
    with Cons.IH [of q] False show ?thesis by (simp add: colon_free_def)
  qed
qed

section \<open>Preparing a token\<close>

lemma prep_token_two_parts:
  assumes "u \<noteq> []" "p \<noteq> []" "colon_free u" "colon_free p"
  shows "prep_token H (PStr (u @ CHR '':'' # p)) = PStr (u @ CHR '':'' # H p)"
  using assms by (simp add: prep_token_def split_colon_two)

lemma prep_token_changed:
  assumes "prep_token H (PStr t) \<noteq> PStr t"
  shows "\<exists>u p. t = u @ CHR '':'' # p \<and> u \<noteq> [] \<and> p \<noteq> [] \<and> colon_free u \<and> colon_free p"
proof -
  from assms have len: "length (split_colon t) = 2" and ne: "[] \<notin> set (split_colon t)"
    by (auto simp: prep_token_def Let_def split: if_splits)
  from len obtain u p where up: "split_colon t = [u, p]"
    by (cases "split_colon t"; cases "tl (split_colon t)") auto
  with ne have "u \<noteq> []" "p \<noteq> []" by auto
  with split_colon_pair [OF up] show ?thesis by blast
qed

lemma prep_token_no_colon: "colon_free t \<Longrightarrow> prep_token H (PStr t) = PStr t"
  by (simp add: prep_token_def split_colon_colon_free)

lemma prep_token_empty_part:
  "[] \<in> set (split_colon t) \<Longrightarrow> prep_token H (PStr t) = PStr t"
  by (simp add: prep_token_def)

text \<open>
  C5. \<open>_prep_token\<close> replaces the second component of a token by its hash exactly when
  the token consists of two non-empty parts: such a token \<open>u:p\<close> becomes \<open>u:H(p)\<close>, and
  a token that \<open>_prep_token\<close> changes is of that form. A token without a colon, a token
  with an empty component and \<open>None\<close> are returned as they are; no case raises (the
  result is always a value).
\<close>

theorem prep_token_hashes_exactly_two_parts:
  "(u \<noteq> [] \<and> p \<noteq> [] \<and> colon_free u \<and> colon_free p \<longrightarrow>
      prep_token H (PStr (u @ CHR '':'' # p)) = PStr (u @ CHR '':'' # H p))
   \<and> (prep_token H (PStr t) \<noteq> PStr t \<longrightarrow>
        (\<exists>u' p'. t = u' @ CHR '':'' # p' \<and> u' \<noteq> [] \<and> p' \<noteq> []
                 \<and> colon_free u' \<and> colon_free p'))
   \<and> (colon_free t \<longrightarrow> prep_token H (PStr t) = PStr t)
   \<and> ([] \<in> set (split_colon t) \<longrightarrow> prep_token H (PStr t) = PStr t)
   \<and> prep_token H PNone = PNone"
proof -
  have "prep_token H PNone = PNone" by (simp add: prep_token_def)
  then show ?thesis
    using prep_token_two_parts [of u p H] prep_token_changed [of H t]
      prep_token_no_colon [of t H] prep_token_empty_part [of t H]
    by blast
qed

theorem prep_token_hashes_exactly_two_parts_witness:
  "prep_token checksum_hex (PStr ''alice_login:secret'') = PStr ''alice_login:77''
   \<and> prep_token checksum_hex (PStr ''alice_login'') = PStr ''alice_login''
   \<and> prep_token checksum_hex (PStr ''alice_login:'') = PStr ''alice_login:''
   \<and> prep_token checksum_hex (PStr '':secret'') = PStr '':secret''"
proof -
  have h: "checksum_hex ''secret'' = ''77''"
    by (simp add: checksum_hex_def hex_digit_def)
  have a: "''alice_login'' \<noteq> [] \<and> ''secret'' \<noteq> [] \<and> colon_free ''alice_login''
      \<and> colon_free ''secret''"
    by (simp add: colon_free_def)
  have b: "colon_free ''alice_login''" by (simp add: colon_free_def)
  have c: "[] \<in> set (split_colon ''alice_login:'')" by simp
  have d: "[] \<in> set (split_colon '':secret'')" by simp
  show ?thesis
    using prep_token_hashes_exactly_two_parts
            [of "''alice_login''" "''secret''" checksum_hex "''alice_login''"]
          prep_token_hashes_exactly_two_parts
            [of "''alice_login''" "''secret''" checksum_hex "''alice_login:''"]
          prep_token_hashes_exactly_two_parts
            [of "''alice_login''" "''secret''" checksum_hex "'':secret''"]
          a b c d h
    by simp
qed

text \<open>
  C3 (as amended). For a raw token \<open>u:p\<close> of two non-empty parts, preparing twice
  hashes twice: when the digest \<open>H(p)\<close> is non-empty and has no colon, as a
  hexadecimal digest is, the second \<open>_prep_token\<close> yields \<open>u:H(H(p))\<close>. The stored form
  \<open>u:H(p)\<close> is a fixed point only if \<open>H(H(p)) = H(p)\<close>.
\<close>

theorem prep_token_twice_rehashes:
  assumes "u \<noteq> []" "p \<noteq> []" "colon_free u" "colon_free p"
    and "H p \<noteq> []" "colon_free (H p)"
  shows "prep_token H (prep_token H (PStr (u @ CHR '':'' # p))) = PStr (u @ CHR '':'' # H (H p))
     \<and> (prep_token H (prep_token H (PStr (u @ CHR '':'' # p)))
          = prep_token H (PStr (u @ CHR '':'' # p)) \<longleftrightarrow> H (H p) = H p)"
proof -
  have one: "prep_token H (PStr (u @ CHR '':'' # p)) = PStr (u @ CHR '':'' # H p)"
    using assms by (simp add: prep_token_two_parts)
  have two: "prep_token H (PStr (u @ CHR '':'' # H p)) = PStr (u @ CHR '':'' # H (H p))"
    using assms by (simp add: prep_token_two_parts)
  show ?thesis by (simp add: one two)
qed

theorem prep_token_twice_rehashes_witness:
  "prep_token checksum_hex (prep_token checksum_hex (PStr ''alice_login:secret''))
     = PStr ''alice_login:27''"
proof -
  have h1: "checksum_hex ''secret'' = ''77''"
    by (simp add: checksum_hex_def hex_digit_def)
  have h2: "checksum_hex ''77'' = ''27''"
    by (simp add: checksum_hex_def hex_digit_def)
  have a: "''alice_login'' \<noteq> []" "''secret'' \<noteq> []" "colon_free ''alice_login''"
    "colon_free ''secret''" "checksum_hex ''secret'' \<noteq> []"
    "colon_free (checksum_hex ''secret'')"
    by (simp_all add: colon_free_def h1)
  show ?thesis
    using prep_token_twice_rehashes [of "''alice_login''" "''secret''" checksum_hex] a
    by (simp add: h1 h2)
qed

theorem prep_token_not_idempotent:
  "prep_token checksum_hex (prep_token checksum_hex (PStr ''alice_login:secret''))
     \<noteq> prep_token checksum_hex (PStr ''alice_login:secret'')"
  by (simp add: prep_token_def checksum_hex_def hex_digit_def)

section \<open>The lock\<close>

lemma locking_conv:
  assumes "\<And>l. body (st\<lparr>lock_events := l\<rparr>) = (case body st of (st', r) \<Rightarrow> (st'\<lparr>lock_events := l\<rparr>, r))"
  shows "locking (method_body body) st =
     (case body st of
        (st', r) \<Rightarrow> (st'\<lparr>lock_events := lock_events st @ [Acquire, Body, Release]\<rparr>, r))"
  by (simp add: locking_def method_body_def assms split: prod.splits)

lemma sample_create_lock:
  "sample_create d (st\<lparr>lock_events := l\<rparr>) =
     (case sample_create d st of (st', r) \<Rightarrow> (st'\<lparr>lock_events := l\<rparr>, r))"
  by (simp add: sample_create_def split: sum.splits)

lemma sample_update_lock:
  "sample_update u d (st\<lparr>lock_events := l\<rparr>) =
     (case sample_update u d st of (st', r) \<Rightarrow> (st'\<lparr>lock_events := l\<rparr>, r))"
  by (simp add: sample_update_def)

lemma sample_delete_lock:
  "sample_delete u (st\<lparr>lock_events := l\<rparr>) =
     (case sample_delete u st of (st', r) \<Rightarrow> (st'\<lparr>lock_events := l\<rparr>, r))"
  by (simp add: sample_delete_def)


lemma mem_create_body_lock:
  "mem_create_body H g d (st\<lparr>lock_events := l\<rparr>) =
     (case mem_create_body H g d st of (st', r) \<Rightarrow> (st'\<lparr>lock_events := l\<rparr>, r))"
  by (simp add: mem_create_body_def Let_def sample_create_lock split: sum.splits)

lemma mem_update_body_lock:
  "mem_update_body H g u d (st\<lparr>lock_events := l\<rparr>) =
     (case mem_update_body H g u d st of (st', r) \<Rightarrow> (st'\<lparr>lock_events := l\<rparr>, r))"
  by (simp add: mem_update_body_def Let_def sample_update_lock split: sum.splits)

lemma mem_credentials_match_body_lock:
  "mem_credentials_match_body H u p (st\<lparr>lock_events := l\<rparr>) =
     (case mem_credentials_match_body H u p st of (st', r) \<Rightarrow> (st'\<lparr>lock_events := l\<rparr>, r))"
  by (simp add: mem_credentials_match_body_def split: sum.splits)

lemma mem_create_conv:
  "mem_create H g d st =
     (case mem_create_body H g d st of
        (st', r) \<Rightarrow> (st'\<lparr>lock_events := lock_events st @ [Acquire, Body, Release]\<rparr>, r))"
  unfolding mem_create_def by (rule locking_conv) (rule mem_create_body_lock)

lemma mem_update_conv:
  "mem_update H g u d st =
     (case mem_update_body H g u d st of
        (st', r) \<Rightarrow> (st'\<lparr>lock_events := lock_events st @ [Acquire, Body, Release]\<rparr>, r))"
  unfolding mem_update_def by (rule locking_conv) (rule mem_update_body_lock)

lemma mem_delete_conv:
  "mem_delete u st =
     (case sample_delete u st of
        (st', r) \<Rightarrow> (st'\<lparr>lock_events := lock_events st @ [Acquire, Body, Release]\<rparr>, r))"
  unfolding mem_delete_def by (rule locking_conv) (rule sample_delete_lock)


lemma mem_credentials_match_conv:
  "mem_credentials_match H u p st =
     (case mem_credentials_match_body H u p st of
        (st', r) \<Rightarrow> (st'\<lparr>lock_events := lock_events st @ [Acquire, Body, Release]\<rparr>, r))"
  unfolding mem_credentials_match_def
  by (rule locking_conv) (rule mem_credentials_match_body_lock)










section \<open>The codec\<close>

lemma from_token_str_auth: "wellformed a \<Longrightarrow> from_token (str_auth a) = Inr a"
proof -
  assume wf: "wellformed a"
  let ?P = "\<lambda>c. c \<noteq> CHR '':''"
  from wf have all: "\<And>x. x \<in> set (username a) \<Longrightarrow> ?P x"
    by (auto simp: wellformed_def colon_free_def)
  have t: "takeWhile ?P (username a @ CHR '':'' # password a) = username a"
    using all by (simp add: takeWhile_append2)
  have d: "dropWhile ?P (username a @ CHR '':'' # password a) = CHR '':'' # password a"
    using all by (simp add: dropWhile_append2)
  from wf show ?thesis
    by (simp add: from_token_def str_auth_def t d wellformed_def)
qed

lemma from_token_Inr:
  assumes "from_token t = Inr a"
  shows "wellformed a \<and> t = str_auth a"
proof -
  let ?P = "\<lambda>c. c \<noteq> CHR '':''"
  let ?u = "takeWhile ?P t" and ?r = "dropWhile ?P t"
  from assms have r: "?r \<noteq> []" and u: "?u \<noteq> []" and p: "tl ?r \<noteq> []"
    and a: "a = BasicAuthCredentials ?u (tl ?r)"
    by (auto simp: from_token_def Let_def split: if_splits)
  from r have "\<not> ?P (hd ?r)" by (rule hd_dropWhile)
  with r have hd: "?r = CHR '':'' # tl ?r" by (cases ?r) auto
  have "t = ?u @ ?r" by simp
  with hd have t: "t = ?u @ CHR '':'' # tl ?r" by simp
  have "colon_free ?u"
    unfolding colon_free_def using set_takeWhileD [of "CHR '':''" ?P t] by blast
  with u p a t show ?thesis by (simp add: wellformed_def str_auth_def)
qed


lemma get_auth_wellformed:
  "get_auth g tok = Inr a \<Longrightarrow> wellformed g \<Longrightarrow> wellformed a"
  by (auto simp: get_auth_def split: pyval.splits if_splits dest: from_token_Inr)

lemma stored_auth_wellformed:
  "wellformed a \<Longrightarrow> stored_auth (d(''token'' \<mapsto> PStr (str_auth a))) = Some a"
  by (simp add: stored_auth_def from_token_str_auth)

lemma stored_auth_SomeD:
  "stored_auth d = Some a \<Longrightarrow> d ''token'' = Some (PStr (str_auth a)) \<and> wellformed a"
  by (auto simp: stored_auth_def split: option.splits pyval.splits sum.splits dest: from_token_Inr)

section \<open>Association lists\<close>

lemma in_set_updateD:
  "distinct (map fst al) \<Longrightarrow> (k', v') \<in> set (AList.update k v al) \<Longrightarrow>
     (k' = k \<and> v' = v) \<or> ((k', v') \<in> set al \<and> k' \<noteq> k)"
  by (induction al) (auto split: if_splits simp: rev_image_eqI)

lemma in_set_deleteD: "(k', v') \<in> set (AList.delete k al) \<Longrightarrow> (k', v') \<in> set al \<and> k' \<noteq> k"
  by (auto simp: AList.delete_eq)

section \<open>The scan\<close>

lemma check_duplicated_username_okD:
  "check_duplicated_username its u uname = Inr x \<Longrightarrow> (k, d) \<in> set its \<Longrightarrow>
     \<exists>a. stored_auth d = Some a \<and> (username a = uname \<longrightarrow> k = u)"
proof (induction its)
  case Nil
  then show ?case by simp
next
  case (Cons kd its)
  obtain k0 d0 where kd: "kd = (k0, d0)" by (cases kd)
  from Cons.prems(1) kd obtain t a0 where
    tok: "d0 ''token'' = Some (PStr t)" and par: "from_token t = Inr a0"
    and cmp: "\<not> (username a0 = uname \<and> u \<noteq> k0)"
    and rest: "check_duplicated_username its u uname = Inr x"
    by (auto simp: details_item_def split: option.splits pyval.splits sum.splits if_splits)
  show ?case
  proof (cases "(k, d) = (k0, d0)")
    case True
    with tok par cmp show ?thesis by (auto simp: stored_auth_def)
  next
    case False
    with Cons.prems(2) kd have "(k, d) \<in> set its" by auto
    with Cons.IH rest show ?thesis by blast
  qed
qed

lemma check_duplicated_username_wf:
  "wf_items its \<Longrightarrow>
     check_duplicated_username its u uname =
       (if owned_by_other its u uname then Inl InvalidResourceDetails else Inr ())"
proof (induction its)
  case Nil
  then show ?case by (simp add: owned_by_other_def)
next
  case (Cons kd its)
  obtain k0 d0 where kd: "kd = (k0, d0)" by (cases kd)
  from Cons.prems kd obtain a0 where a0: "stored_auth d0 = Some a0"
    by (auto simp: wf_items_def)
  then obtain t where tok: "d0 ''token'' = Some (PStr t)" and par: "from_token t = Inr a0"
    by (auto simp: stored_auth_def split: option.splits pyval.splits sum.splits)
  from Cons.prems have wf: "wf_items its" by (simp add: wf_items_def)
  have own: "owned_by_other ((k0, d0) # its) u uname
      = ((k0 \<noteq> u \<and> username a0 = uname) \<or> owned_by_other its u uname)"
    by (auto simp: owned_by_other_def a0)
  show ?case
    using Cons.IH [OF wf] by (auto simp: kd details_item_def tok par own)
qed

section \<open>Steps of the in-memory store\<close>

lemma locked_items:
  "items (fst (case x of (st', r) \<Rightarrow> (st'\<lparr>lock_events := l\<rparr>, r))) = items (fst x)"
  by (cases x) simp

lemma locked_result:
  "snd (case x of (st', r) \<Rightarrow> (st'\<lparr>lock_events := l\<rparr>, r)) = snd x"
  by (cases x) simp

lemma mem_create_body_error:
  "snd (mem_create_body H g d st) = Inl e \<Longrightarrow> fst (mem_create_body H g d st) = st"
  by (auto simp: mem_create_body_def Let_def sample_create_def
      split: sum.splits if_splits)

lemma mem_create_body_success:
  assumes "snd (mem_create_body H g d st) = Inr r"
  shows "\<exists>a u. get_auth g (prep_token H (details_get d ''token'')) = Inr a
           \<and> d ''user'' = Some u
           \<and> check_duplicated_username (items st) u (username a) = Inr ()
           \<and> u \<notin> set (map fst (items st))
           \<and> r = (u, d(''token'' \<mapsto> PStr (str_auth a)))
           \<and> fst (mem_create_body H g d st)
               = st\<lparr>items := AList.update u (d(''token'' \<mapsto> PStr (str_auth a))) (items st)\<rparr>"
  using assms
  by (auto simp: mem_create_body_def Let_def sample_create_def details_item_def
      split: sum.splits if_splits option.splits)

lemma mem_update_body_error:
  "snd (mem_update_body H g u d st) = Inl e \<Longrightarrow> fst (mem_update_body H g u d st) = st"
  by (auto simp: mem_update_body_def Let_def sample_update_def
      split: sum.splits if_splits)

lemma mem_update_body_success:
  assumes "snd (mem_update_body H g u d st) = Inr r"
  shows "\<exists>a. get_auth g (prep_token H (details_get d ''token'')) = Inr a
           \<and> check_duplicated_username (items st) u (username a) = Inr ()
           \<and> u \<in> set (map fst (items st))
           \<and> r = d(''token'' \<mapsto> PStr (str_auth a))
           \<and> fst (mem_update_body H g u d st)
               = st\<lparr>items := AList.update u (d(''token'' \<mapsto> PStr (str_auth a))) (items st)\<rparr>"
  using assms
  by (auto simp: mem_update_body_def Let_def sample_update_def
      split: sum.splits if_splits)

section \<open>The invariant of the in-memory store\<close>

lemma update_preserves_invariant:
  assumes inv: "store_invariant its"
    and chk: "check_duplicated_username its u (username a) = Inr x"
    and wf: "wellformed a"
  shows "store_invariant (AList.update u (d(''token'' \<mapsto> PStr (str_auth a))) its)"
proof -
  let ?d = "d(''token'' \<mapsto> PStr (str_auth a))"
  let ?its = "AList.update u ?d its"
  from inv have dist: "distinct (map fst its)" and wfi: "wf_items its"
    and uniq: "unique_usernames its"
    by (simp_all add: store_invariant_def)
  have new: "stored_auth ?d = Some a" using wf by (rule stored_auth_wellformed)
  have mem: "\<And>k v. (k, v) \<in> set ?its \<Longrightarrow> (k = u \<and> v = ?d) \<or> ((k, v) \<in> set its \<and> k \<noteq> u)"
    using in_set_updateD [OF dist] by blast
  have other: "\<And>k v. (k, v) \<in> set its \<Longrightarrow> k \<noteq> u \<Longrightarrow>
      stored_auth v \<noteq> None \<and> map_option username (stored_auth v) \<noteq> Some (username a)"
    using check_duplicated_username_okD [OF chk] by fastforce
  have d1: "distinct (map fst ?its)" using dist by (rule distinct_update)
  have d2: "wf_items ?its"
    unfolding wf_items_def using mem new wfi by (fastforce simp: wf_items_def)
  have d3: "unique_usernames ?its"
    unfolding unique_usernames_def
  proof (clarify)
    fix k1 v1 k2 v2 y
    assume in1: "(k1, v1) \<in> set ?its" and in2: "(k2, v2) \<in> set ?its"
      and ne: "k1 \<noteq> k2" and some: "stored_auth v1 = Some y"
      and eq: "map_option username (stored_auth v1) = map_option username (stored_auth v2)"
    from mem [OF in1] mem [OF in2] ne
    consider (new_old) "k1 = u" "v1 = ?d" "(k2, v2) \<in> set its" "k2 \<noteq> u"
      | (old_new) "k2 = u" "v2 = ?d" "(k1, v1) \<in> set its" "k1 \<noteq> u"
      | (old_old) "(k1, v1) \<in> set its" "(k2, v2) \<in> set its"
      by blast
    then show False
    proof cases
      case new_old
      with other [of k2 v2] eq new show False by auto
    next
      case old_new
      with other [of k1 v1] eq new show False by auto
    next
      case old_old
      with uniq ne some eq show False
        by (fastforce simp: unique_usernames_def)
    qed
  qed
  from d1 d2 d3 show ?thesis by (simp add: store_invariant_def)
qed

lemma delete_preserves_invariant:
  assumes "store_invariant its"
  shows "store_invariant (AList.delete u its)"
proof -
  have sub: "\<And>k v. (k, v) \<in> set (AList.delete u its) \<Longrightarrow> (k, v) \<in> set its"
    using in_set_deleteD by fastforce
  from assms have "distinct (map fst (AList.delete u its))"
    by (simp add: store_invariant_def distinct_delete)
  moreover from assms sub have "wf_items (AList.delete u its)"
    by (fastforce simp: store_invariant_def wf_items_def)
  moreover from assms have "unique_usernames its" by (simp add: store_invariant_def)
  with sub have "unique_usernames (AList.delete u its)"
    unfolding unique_usernames_def by blast
  ultimately show ?thesis by (simp add: store_invariant_def)
qed

lemma mem_create_invariant:
  assumes "store_invariant (items st)" "wellformed g"
  shows "store_invariant (items (fst (mem_create H g d st)))"
proof (cases "snd (mem_create_body H g d st)")
  case (Inl e)
  with assms show ?thesis
    by (simp add: mem_create_conv locked_items mem_create_body_error)
next
  case (Inr r)
  from mem_create_body_success [OF Inr] obtain a u where
    a: "get_auth g (prep_token H (details_get d ''token'')) = Inr a"
    and chk: "check_duplicated_username (items st) u (username a) = Inr ()"
    and st': "fst (mem_create_body H g d st)
               = st\<lparr>items := AList.update u (d(''token'' \<mapsto> PStr (str_auth a))) (items st)\<rparr>"
    by blast
  from a assms(2) have "wellformed a" by (rule get_auth_wellformed)
  with assms(1) chk show ?thesis
    by (simp add: mem_create_conv locked_items st' update_preserves_invariant)
qed

lemma mem_update_invariant:
  assumes "store_invariant (items st)" "wellformed g"
  shows "store_invariant (items (fst (mem_update H g u d st)))"
proof (cases "snd (mem_update_body H g u d st)")
  case (Inl e)
  with assms show ?thesis
    by (simp add: mem_update_conv locked_items mem_update_body_error)
next
  case (Inr r)
  from mem_update_body_success [OF Inr] obtain a where
    a: "get_auth g (prep_token H (details_get d ''token'')) = Inr a"
    and chk: "check_duplicated_username (items st) u (username a) = Inr ()"
    and st': "fst (mem_update_body H g u d st)
               = st\<lparr>items := AList.update u (d(''token'' \<mapsto> PStr (str_auth a))) (items st)\<rparr>"
    by blast
  from a assms(2) have "wellformed a" by (rule get_auth_wellformed)
  with assms(1) chk show ?thesis
    by (simp add: mem_update_conv locked_items st' update_preserves_invariant)
qed

lemma mem_delete_invariant:
  assumes "store_invariant (items st)"
  shows "store_invariant (items (fst (mem_delete u st)))"
  using assms
  by (simp add: mem_delete_conv locked_items sample_delete_def delete_preserves_invariant)

lemma mem_step_invariant:
  "store_invariant (items st) \<Longrightarrow> generated_ok op \<Longrightarrow>
     store_invariant (items (mem_step H st op))"
  by (cases op) (simp_all add: mem_create_invariant mem_update_invariant mem_delete_invariant)

lemma mem_run_invariant:
  "store_invariant (items st) \<Longrightarrow> list_all generated_ok ops \<Longrightarrow>
     store_invariant (items (mem_run H ops st))"
  unfolding mem_run_def
  by (induction ops arbitrary: st) (simp_all add: mem_step_invariant)

lemma empty_store_invariant: "store_invariant (items empty_store)"
  by (simp add: store_invariant_def wf_items_def unique_usernames_def empty_store_def)

section \<open>Steps of the database-backed store\<close>

lemma transact_fst:
  "fst (transact body m) = (case snd (body m) of Inl e \<Rightarrow> m | Inr r \<Rightarrow> fst (body m))"
  by (simp add: transact_def split: prod.splits sum.splits)

lemma transact_snd: "snd (transact body m) = snd (body m)"
  by (simp add: transact_def split: prod.splits sum.splits)

lemma get_credentials_by_username_None:
  "get_credentials_by_username m n = None \<longleftrightarrow> (\<forall>c \<in> set m. username (auth c) \<noteq> n)"
  by (auto simp: get_credentials_by_username_def find_None_iff)

lemma get_credentials_by_username_Some:
  "get_credentials_by_username m n = Some c \<Longrightarrow> c \<in> set m \<and> username (auth c) = n"
  by (auto simp: get_credentials_by_username_def find_Some_iff)

lemma db_check_okD:
  assumes "db_check_duplicated_username m u n = Inr x" "db_unique_usernames m"
    "c \<in> set m" "username (auth c) = n"
  shows "user c = u"
proof (cases "get_credentials_by_username m n")
  case None
  with assms(3,4) show ?thesis by (simp add: get_credentials_by_username_None)
next
  case (Some c0)
  with assms(1) have "user c0 = u"
    by (simp add: db_check_duplicated_username_def split: if_splits)
  moreover from Some have "c0 \<in> set m" "username (auth c0) = n"
    by (simp_all add: get_credentials_by_username_Some)
  ultimately show ?thesis using assms(2,3,4)
    by (auto simp: db_unique_usernames_def)
qed

lemma db_check_unknown:
  "\<not> is_known_user m u \<Longrightarrow>
     db_check_duplicated_username m u n =
       (if \<exists>c \<in> set m. username (auth c) = n then Inl InvalidResourceDetails else Inr ())"
proof (cases "get_credentials_by_username m n")
  case None
  then show ?thesis
    by (simp add: db_check_duplicated_username_def get_credentials_by_username_None [symmetric])
next
  case (Some c0)
  assume "\<not> is_known_user m u"
  with Some get_credentials_by_username_Some [OF Some] show ?thesis
    by (auto simp: db_check_duplicated_username_def is_known_user_def)
qed

lemma db_check_owned:
  assumes "db_unique_usernames m" "db_owned_by_other m u n"
  shows "db_check_duplicated_username m u n = Inl InvalidResourceDetails"
proof (cases "db_check_duplicated_username m u n")
  case (Inl e)
  then show ?thesis
    by (auto simp: db_check_duplicated_username_def split: option.splits if_splits)
next
  case (Inr x)
  from assms(2) obtain c where "c \<in> set m" "user c \<noteq> u" "username (auth c) = n"
    by (auto simp: db_owned_by_other_def)
  with db_check_okD [OF Inr assms(1)] show ?thesis by blast
qed

lemma add_credentials_unique:
  assumes "db_unique_usernames m" "\<forall>c \<in> set m. username (auth c) \<noteq> n"
  shows "db_unique_usernames (add_credentials H m u n pw)"
  using assms by (auto simp: db_unique_usernames_def add_credentials_def)

lemma update_credentials_unique:
  assumes uniq: "db_unique_usernames m"
    and own: "\<forall>c \<in> set m. username (auth c) = n \<longrightarrow> user c = u"
  shows "db_unique_usernames (update_credentials H m u n pw)"
  unfolding db_unique_usernames_def update_credentials_def
proof (intro ballI impI)
  fix c1 c2
  let ?f = "\<lambda>c. if user c = u then Credentials u (BasicAuthCredentials n (H pw)) else c"
  assume "c1 \<in> set (map ?f m)" "c2 \<in> set (map ?f m)" and ne: "user c1 \<noteq> user c2"
  then obtain b1 b2 where b: "b1 \<in> set m" "c1 = ?f b1" "b2 \<in> set m" "c2 = ?f b2"
    by auto
  show "username (auth c1) \<noteq> username (auth c2)"
  proof (cases "user b1 = u")
    case True
    with b ne have "user b2 \<noteq> u" by auto
    with True b own show ?thesis by auto
  next
    case False
    show ?thesis
    proof (cases "user b2 = u")
      case True
      with False b own show ?thesis by auto
    next
      case b2: False
      with False b ne uniq show ?thesis by (auto simp: db_unique_usernames_def)
    qed
  qed
qed

lemma remove_credentials_unique:
  "db_unique_usernames m \<Longrightarrow> db_unique_usernames (fst (remove_credentials m u))"
  by (auto simp: db_unique_usernames_def remove_credentials_def)

lemma db_create_error:
  "snd (db_create H g d m) = Inl e \<Longrightarrow> fst (db_create H g d m) = m"
  by (simp add: db_create_def transact_fst transact_snd)

lemma db_update_error:
  "snd (db_update H g u d m) = Inl e \<Longrightarrow> fst (db_update H g u d m) = m"
  by (simp add: db_update_def transact_fst transact_snd)

lemma db_create_success:
  assumes "snd (db_create H g d m) = Inr r"
  shows "\<exists>a u. d ''user'' = Some u \<and> \<not> is_known_user m u
           \<and> get_auth g (details_get d ''token'') = Inr a
           \<and> db_check_duplicated_username m u (username a) = Inr ()
           \<and> r = (u, [''user'' \<mapsto> u, ''token'' \<mapsto> PStr (str_auth a)])
           \<and> fst (db_create H g d m) = add_credentials H m u (username a) (password a)"
  using assms
  by (auto simp: db_create_def transact_fst transact_snd db_create_body_def details_item_def
      split: option.splits sum.splits if_splits)

lemma db_update_success:
  assumes "snd (db_update H g u d m) = Inr r"
  shows "\<exists>a. is_known_user m u
           \<and> get_auth g (details_get d ''token'') = Inr a
           \<and> db_check_duplicated_username m u (username a) = Inr ()
           \<and> r = [''user'' \<mapsto> u, ''token'' \<mapsto> PStr (str_auth a)]
           \<and> fst (db_update H g u d m) = update_credentials H m u (username a) (password a)"
  using assms
  by (auto simp: db_update_def transact_fst transact_snd db_update_body_def
      split: option.splits sum.splits if_splits)

lemma db_create_invariant:
  assumes "db_unique_usernames m"
  shows "db_unique_usernames (fst (db_create H g d m))"
proof (cases "snd (db_create H g d m)")
  case (Inl e)
  with assms show ?thesis by (simp add: db_create_error)
next
  case (Inr r)
  from db_create_success [OF Inr] obtain a u where
    unk: "\<not> is_known_user m u"
    and chk: "db_check_duplicated_username m u (username a) = Inr ()"
    and m': "fst (db_create H g d m) = add_credentials H m u (username a) (password a)"
    by blast
  from chk unk have "\<forall>c \<in> set m. username (auth c) \<noteq> username a"
    by (simp add: db_check_unknown split: if_splits)
  with assms show ?thesis by (simp add: m' add_credentials_unique)
qed

lemma db_update_invariant:
  assumes "db_unique_usernames m"
  shows "db_unique_usernames (fst (db_update H g u d m))"
proof (cases "snd (db_update H g u d m)")
  case (Inl e)
  with assms show ?thesis by (simp add: db_update_error)
next
  case (Inr r)
  from db_update_success [OF Inr] obtain a where
    chk: "db_check_duplicated_username m u (username a) = Inr ()"
    and m': "fst (db_update H g u d m) = update_credentials H m u (username a) (password a)"
    by blast
  from db_check_okD [OF chk assms]
  have "\<forall>c \<in> set m. username (auth c) = username a \<longrightarrow> user c = u" by blast
  with assms show ?thesis by (simp add: m' update_credentials_unique)
qed

lemma db_delete_fst:
  "fst (db_delete u m) = (if is_known_user m u then fst (remove_credentials m u) else m)"
  by (simp add: db_delete_def transact_fst db_delete_body_def remove_credentials_def)

lemma db_delete_snd:
  "snd (db_delete u m) = (if is_known_user m u then Inr () else Inl (ResourceNotFound u))"
  by (simp add: db_delete_def transact_snd db_delete_body_def remove_credentials_def)

lemma db_delete_invariant:
  "db_unique_usernames m \<Longrightarrow> db_unique_usernames (fst (db_delete u m))"
  by (simp add: db_delete_fst remove_credentials_unique)

lemma db_step_invariant: "db_unique_usernames m \<Longrightarrow> db_unique_usernames (db_step H m op)"
  by (cases op) (simp_all add: db_create_invariant db_update_invariant db_delete_invariant)

lemma db_run_invariant: "db_unique_usernames m \<Longrightarrow> db_unique_usernames (db_run H ops m)"
  unfolding db_run_def
  by (induction ops arbitrary: m) (simp_all add: db_step_invariant)

lemma not_known_after_remove: "\<not> is_known_user (fst (remove_credentials m u)) u"
  by (simp add: remove_credentials_def is_known_user_def)

lemma db_create_distinct:
  assumes "distinct (map user m)"
  shows "distinct (map user (fst (db_create H g d m)))"
proof (cases "snd (db_create H g d m)")
  case (Inl e)
  with assms show ?thesis by (simp add: db_create_error)
next
  case (Inr r)
  from db_create_success [OF Inr] obtain a u where
    "\<not> is_known_user m u"
    "fst (db_create H g d m) = add_credentials H m u (username a) (password a)"
    by blast
  with assms show ?thesis
    by (auto simp: add_credentials_def is_known_user_def)
qed

lemma update_credentials_users: "map user (update_credentials H m u n pw) = map user m"
  by (simp add: update_credentials_def comp_def cong: map_cong)

lemma db_update_distinct:
  assumes "distinct (map user m)"
  shows "distinct (map user (fst (db_update H g u d m)))"
proof (cases "snd (db_update H g u d m)")
  case (Inl e)
  with assms show ?thesis by (simp add: db_update_error)
next
  case (Inr r)
  from db_update_success [OF Inr] obtain a where
    "fst (db_update H g u d m) = update_credentials H m u (username a) (password a)"
    by blast
  with assms show ?thesis by (simp add: update_credentials_users)
qed

lemma db_delete_distinct:
  "distinct (map user m) \<Longrightarrow> distinct (map user (fst (db_delete u m)))"
  by (simp add: db_delete_fst remove_credentials_def distinct_map_filter)

lemma db_step_db_invariant: "db_invariant m \<Longrightarrow> db_invariant (db_step H m op)"
  by (cases op)
    (simp_all add: db_invariant_def db_create_invariant db_update_invariant
      db_delete_invariant db_create_distinct db_update_distinct db_delete_distinct)

lemma db_run_db_invariant: "db_invariant m \<Longrightarrow> db_invariant (db_run H ops m)"
  unfolding db_run_def
  by (induction ops arbitrary: m) (simp_all add: db_step_db_invariant)

lemma empty_db_invariant: "db_invariant []"
  by (simp add: db_invariant_def db_unique_usernames_def)

section \<open>Evaluating the sample data\<close>

lemma checksum_hex_secret: "checksum_hex ''secret'' = ''77''"
  by (simp add: checksum_hex_def hex_digit_def)

lemma checksum_hex_other: "checksum_hex ''other'' = ''69''"
  by (simp add: checksum_hex_def hex_digit_def)

lemma checksum_hex_wrong: "checksum_hex ''wrong'' = ''06''"
  by (simp add: checksum_hex_def hex_digit_def)

lemmas sample_defs =
  alice_def bob_def alice_details_def bob_details_def generated_pair_def alice_store_def
  alice_model_def alice_bob_model_def empty_store_def

lemmas codec_defs =
  prep_token_def details_get_def details_item_def get_auth_def from_token_def str_auth_def

lemma mem_create_snd: "snd (mem_create H g d st) = snd (mem_create_body H g d st)"
  by (simp add: mem_create_conv locked_result)

lemma mem_create_items: "items (fst (mem_create H g d st)) = items (fst (mem_create_body H g d st))"
  by (simp add: mem_create_conv locked_items)

lemma mem_update_snd: "snd (mem_update H g u d st) = snd (mem_update_body H g u d st)"
  by (simp add: mem_update_conv locked_result)

lemma mem_update_items:
  "items (fst (mem_update H g u d st)) = items (fst (mem_update_body H g u d st))"
  by (simp add: mem_update_conv locked_items)

text \<open>
  C10. In the in-memory store, when create or update raises \<open>InvalidDetails\<close>, the
  error comes from the duplicate-username check, which runs before any insertion or
  overwrite, and \<open>self.items\<close> after the failed call is what it was before.
\<close>

theorem mem_invalid_details_leaves_items:
  "(snd (mem_create H g d st) = Inl InvalidResourceDetails \<longrightarrow>
      items (fst (mem_create H g d st)) = items st
      \<and> (\<exists>a u. get_auth g (prep_token H (details_get d ''token'')) = Inr a
            \<and> d ''user'' = Some u
            \<and> check_duplicated_username (items st) u (username a)
                = Inl InvalidResourceDetails))
   \<and> (snd (mem_update H g u d st) = Inl InvalidResourceDetails \<longrightarrow>
      items (fst (mem_update H g u d st)) = items st
      \<and> (\<exists>a. get_auth g (prep_token H (details_get d ''token'')) = Inr a
            \<and> check_duplicated_username (items st) u (username a)
                = Inl InvalidResourceDetails))"
proof (intro conjI impI)
  assume e: "snd (mem_create H g d st) = Inl InvalidResourceDetails"
  then show "items (fst (mem_create H g d st)) = items st"
    by (simp add: mem_create_snd mem_create_items mem_create_body_error)
  have no_parse: "\<And>t. from_token t \<noteq> Inl InvalidResourceDetails"
    by (simp add: from_token_def Let_def)
  from e no_parse
  show "\<exists>a u. get_auth g (prep_token H (details_get d ''token'')) = Inr a
            \<and> d ''user'' = Some u
            \<and> check_duplicated_username (items st) u (username a)
                = Inl InvalidResourceDetails"
    by (auto simp: mem_create_snd mem_create_body_def Let_def sample_create_def
        details_item_def get_auth_def
        split: sum.splits option.splits if_splits pyval.splits)
next
  assume e: "snd (mem_update H g u d st) = Inl InvalidResourceDetails"
  then show "items (fst (mem_update H g u d st)) = items st"
    by (simp add: mem_update_snd mem_update_items mem_update_body_error)
  have no_parse: "\<And>t. from_token t \<noteq> Inl InvalidResourceDetails"
    by (simp add: from_token_def Let_def)
  from e no_parse
  show "\<exists>a. get_auth g (prep_token H (details_get d ''token'')) = Inr a
            \<and> check_duplicated_username (items st) u (username a)
                = Inl InvalidResourceDetails"
    by (auto simp: mem_update_snd mem_update_body_def Let_def sample_update_def
        get_auth_def split: sum.splits option.splits if_splits pyval.splits)
qed

theorem mem_invalid_details_leaves_items_witness:
  "snd (mem_create checksum_hex generated_pair bob_details alice_store)
     = Inl InvalidResourceDetails
   \<and> items (fst (mem_create checksum_hex generated_pair bob_details alice_store))
     = items alice_store
   \<and> snd (mem_update checksum_hex generated_pair bob bob_details alice_store)
     = Inl InvalidResourceDetails
   \<and> items (fst (mem_update checksum_hex generated_pair bob bob_details alice_store))
     = items alice_store"
proof -
  have c: "snd (mem_create checksum_hex generated_pair bob_details alice_store)
             = Inl InvalidResourceDetails"
    by (simp add: mem_create_snd mem_create_body_def sample_defs codec_defs
        checksum_hex_other)
  have u: "snd (mem_update checksum_hex generated_pair bob bob_details alice_store)
             = Inl InvalidResourceDetails"
    by (simp add: mem_update_snd mem_update_body_def sample_defs codec_defs
        checksum_hex_other)
  show ?thesis
    using mem_invalid_details_leaves_items
      [of checksum_hex generated_pair bob_details alice_store bob] c u
    by simp
qed

section \<open>Create, then get\<close>

lemma colon_split_unique:
  assumes "colon_free u" "colon_free u'" "u @ CHR '':'' # p = u' @ CHR '':'' # p'"
  shows "u = u' \<and> p = p'"
proof -
  let ?P = "\<lambda>c. c \<noteq> CHR '':''"
  from assms(1) have "\<And>x. x \<in> set u \<Longrightarrow> ?P x" by (auto simp: colon_free_def)
  then have "takeWhile ?P (u @ CHR '':'' # p) = u" by (simp add: takeWhile_append2)
  moreover from assms(2) have "\<And>x. x \<in> set u' \<Longrightarrow> ?P x" by (auto simp: colon_free_def)
  then have "takeWhile ?P (u' @ CHR '':'' # p') = u'" by (simp add: takeWhile_append2)
  ultimately have "u = u'" using assms(3) by simp
  with assms(3) show ?thesis by simp
qed


lemma db_get_snd:
  "snd (db_get k m) =
     (case get_credentials_by_user m k of
        None \<Rightarrow> Inl (ResourceNotFound k)
      | Some c \<Rightarrow> Inr [''user'' \<mapsto> k, ''token'' \<mapsto> PStr (str_auth (auth c))])"
  by (simp add: db_get_def transact_snd db_get_body_def split: option.splits)

lemma get_after_add:
  "\<not> is_known_user m k \<Longrightarrow>
     get_credentials_by_user (add_credentials H m k n pw) k
       = Some (Credentials k (BasicAuthCredentials n (H pw)))"
  by (induction m)
    (auto simp: get_credentials_by_user_def add_credentials_def is_known_user_def)

section \<open>A missing token\<close>

lemma missing_token_get:
  assumes "token_missing d"
  shows "get_auth g (details_get d ''token'') = Inr g"
    and "get_auth g (prep_token H (details_get d ''token'')) = Inr g"
  using assms by (auto simp: token_missing_def details_get_def get_auth_def prep_token_def)

lemma check_wf_not_malformed:
  "wf_items its \<Longrightarrow> check_duplicated_username its u n \<noteq> Inl MalformedToken"
  by (simp add: check_duplicated_username_wf)

lemma mem_create_missing_token:
  assumes miss: "token_missing d"
  shows "(wf_items (items st) \<longrightarrow> snd (mem_create H g d st) \<noteq> Inl MalformedToken)
     \<and> (snd (mem_create H g d st) = Inr r \<longrightarrow>
          snd r ''token'' = Some (PStr (str_auth g))
          \<and> map_of (items (fst (mem_create H g d st))) (fst r) = Some (snd r))"
proof (intro conjI impI)
  assume "wf_items (items st)"
  then show "snd (mem_create H g d st) \<noteq> Inl MalformedToken"
    using check_wf_not_malformed [of "items st"]
    by (auto simp: mem_create_snd mem_create_body_def missing_token_get(2) [OF miss]
        sample_create_def details_item_def split: sum.splits option.splits if_splits)
next
  assume "snd (mem_create H g d st) = Inr r"
  then have "snd (mem_create_body H g d st) = Inr r" by (simp add: mem_create_snd)
  from mem_create_body_success [OF this] missing_token_get(2) [OF miss, of g H]
  obtain k where r: "r = (k, d(''token'' \<mapsto> PStr (str_auth g)))"
    and st': "fst (mem_create_body H g d st)
               = st\<lparr>items := AList.update k (d(''token'' \<mapsto> PStr (str_auth g))) (items st)\<rparr>"
    by auto
  then show "snd r ''token'' = Some (PStr (str_auth g))"
    and "map_of (items (fst (mem_create H g d st))) (fst r) = Some (snd r)"
    by (simp_all add: mem_create_items update_conv')
qed

lemma mem_update_missing_token:
  assumes miss: "token_missing d"
  shows "(wf_items (items st) \<longrightarrow> snd (mem_update H g u d st) \<noteq> Inl MalformedToken)
     \<and> (snd (mem_update H g u d st) = Inr r \<longrightarrow>
          r ''token'' = Some (PStr (str_auth g))
          \<and> map_of (items (fst (mem_update H g u d st))) u = Some r)"
proof (intro conjI impI)
  assume "wf_items (items st)"
  then show "snd (mem_update H g u d st) \<noteq> Inl MalformedToken"
    using check_wf_not_malformed [of "items st"]
    by (auto simp: mem_update_snd mem_update_body_def missing_token_get(2) [OF miss]
        sample_update_def split: sum.splits if_splits)
next
  assume "snd (mem_update H g u d st) = Inr r"
  then have "snd (mem_update_body H g u d st) = Inr r" by (simp add: mem_update_snd)
  from mem_update_body_success [OF this] missing_token_get(2) [OF miss, of g H]
  have r: "r = d(''token'' \<mapsto> PStr (str_auth g))"
    and st': "fst (mem_update_body H g u d st)
               = st\<lparr>items := AList.update u (d(''token'' \<mapsto> PStr (str_auth g))) (items st)\<rparr>"
    by auto
  then show "r ''token'' = Some (PStr (str_auth g))"
    and "map_of (items (fst (mem_update H g u d st))) u = Some r"
    by (simp_all add: mem_update_items update_conv')
qed

lemma db_create_missing_token:
  assumes miss: "token_missing d"
  shows "snd (db_create H g d m) \<noteq> Inl MalformedToken
     \<and> (snd (db_create H g d m) = Inr r \<longrightarrow>
          snd r ''token'' = Some (PStr (str_auth g))
          \<and> fst (db_create H g d m) = add_credentials H m (fst r) (username g) (password g))"
proof (intro conjI impI)
  show "snd (db_create H g d m) \<noteq> Inl MalformedToken"
    by (auto simp: db_create_def transact_snd db_create_body_def details_item_def
        missing_token_get(1) [OF miss] db_check_duplicated_username_def
        split: sum.splits option.splits if_splits)
next
  assume "snd (db_create H g d m) = Inr r"
  from db_create_success [OF this] missing_token_get(1) [OF miss, of g]
  show "snd r ''token'' = Some (PStr (str_auth g))"
    and "fst (db_create H g d m) = add_credentials H m (fst r) (username g) (password g)"
    by auto
qed

lemma db_update_missing_token:
  assumes miss: "token_missing d"
  shows "snd (db_update H g u d m) \<noteq> Inl MalformedToken
     \<and> (snd (db_update H g u d m) = Inr r \<longrightarrow>
          r ''token'' = Some (PStr (str_auth g))
          \<and> fst (db_update H g u d m) = update_credentials H m u (username g) (password g))"
proof (intro conjI impI)
  show "snd (db_update H g u d m) \<noteq> Inl MalformedToken"
    by (auto simp: db_update_def transact_snd db_update_body_def
        missing_token_get(1) [OF miss] db_check_duplicated_username_def
        split: sum.splits option.splits if_splits)
next
  assume "snd (db_update H g u d m) = Inr r"
  from db_update_success [OF this] missing_token_get(1) [OF miss, of g]
  show "r ''token'' = Some (PStr (str_auth g))"
    and "fst (db_update H g u d m) = update_credentials H m u (username g) (password g)"
    by auto
qed

section \<open>Matching credentials\<close>

lemma stored_tokens_wf:
  "wf_items its \<Longrightarrow>
     \<exists>ts. stored_tokens its = Inr ts \<and> set ts = {v. \<exists>k d. (k, d) \<in> set its \<and> d ''token'' = Some v}"
proof (induction its)
  case Nil
  then show ?case by simp
next
  case (Cons kd its)
  obtain k0 d0 where kd: "kd = (k0, d0)" by (cases kd)
  from Cons.prems kd obtain a0 where "stored_auth d0 = Some a0"
    by (auto simp: wf_items_def)
  then obtain v where v: "d0 ''token'' = Some v"
    by (auto simp: stored_auth_def split: option.splits)
  from Cons.prems have "wf_items its" by (simp add: wf_items_def)
  with Cons.IH obtain ts where ts: "stored_tokens its = Inr ts"
    "set ts = {v. \<exists>k d. (k, d) \<in> set its \<and> d ''token'' = Some v}"
    by blast
  have "stored_tokens (kd # its) = Inr (v # ts)"
    by (simp add: kd details_item_def v ts(1))
  moreover have "set (v # ts) = {w. \<exists>k d. (k, d) \<in> set (kd # its) \<and> d ''token'' = Some w}"
    using v ts(2) kd by auto
  ultimately show ?case by blast
qed

lemma stored_auth_token_iff:
  assumes "stored_auth d \<noteq> None" "colon_free n"
  shows "d ''token'' = Some (PStr (n @ CHR '':'' # h))
     \<longleftrightarrow> stored_auth d = Some (BasicAuthCredentials n h)"
proof
  assume tok: "d ''token'' = Some (PStr (n @ CHR '':'' # h))"
  from assms(1) obtain a where a: "stored_auth d = Some a" by auto
  from stored_auth_SomeD [OF a] tok
  have eq: "username a @ CHR '':'' # password a = n @ CHR '':'' # h"
    and wf: "wellformed a"
    by (simp_all add: str_auth_def)
  from wf have "colon_free (username a)" by (simp add: wellformed_def)
  from colon_split_unique [OF this assms(2) eq] have "a = BasicAuthCredentials n h"
    by (cases a) simp
  with a show "stored_auth d = Some (BasicAuthCredentials n h)" by simp
next
  assume "stored_auth d = Some (BasicAuthCredentials n h)"
  from stored_auth_SomeD [OF this] show "d ''token'' = Some (PStr (n @ CHR '':'' # h))"
    by (simp add: str_auth_def)
qed

lemma mem_credentials_match_wf:
  assumes wf: "wf_items (items st)" and n: "colon_free n"
  shows "snd (mem_credentials_match H n p st)
     = Inr (\<exists>(k, d) \<in> set (items st). stored_auth d = Some (BasicAuthCredentials n (H p)))"
proof -
  from stored_tokens_wf [OF wf] obtain ts where ts: "stored_tokens (items st) = Inr ts"
    "set ts = {v. \<exists>k d. (k, d) \<in> set (items st) \<and> d ''token'' = Some v}"
    by blast
  have "PStr (n @ CHR '':'' # H p) \<in> set ts
      \<longleftrightarrow> (\<exists>(k, d) \<in> set (items st). stored_auth d = Some (BasicAuthCredentials n (H p)))"
  proof
    assume "PStr (n @ CHR '':'' # H p) \<in> set ts"
    with ts(2) obtain k d where kd: "(k, d) \<in> set (items st)"
      "d ''token'' = Some (PStr (n @ CHR '':'' # H p))"
      by auto
    from wf kd(1) have "stored_auth d \<noteq> None" by (auto simp: wf_items_def)
    from stored_auth_token_iff [OF this n] kd
    show "\<exists>(k, d) \<in> set (items st). stored_auth d = Some (BasicAuthCredentials n (H p))"
      by blast
  next
    assume "\<exists>(k, d) \<in> set (items st). stored_auth d = Some (BasicAuthCredentials n (H p))"
    then obtain k d where kd: "(k, d) \<in> set (items st)"
      "stored_auth d = Some (BasicAuthCredentials n (H p))"
      by auto
    from stored_auth_SomeD [OF kd(2)] have "d ''token'' = Some (PStr (n @ CHR '':'' # H p))"
      by (simp add: str_auth_def)
    with kd(1) ts(2) show "PStr (n @ CHR '':'' # H p) \<in> set ts" by auto
  qed
  then show ?thesis
    by (simp add: mem_credentials_match_conv locked_result mem_credentials_match_body_def ts(1))
qed

lemma mem_credentials_match_items:
  "items (fst (mem_credentials_match H n p st)) = items st"
  by (simp add: mem_credentials_match_conv locked_items mem_credentials_match_body_def
      split: sum.splits)

lemma db_same_username_same_record:
  assumes "db_invariant m" "c \<in> set m" "c' \<in> set m"
    "username (auth c) = username (auth c')"
  shows "c = c'"
proof -
  from assms have "user c = user c'"
    by (auto simp: db_invariant_def db_unique_usernames_def)
  moreover from assms(1) have "inj_on user (set m)"
    by (simp add: db_invariant_def distinct_map)
  ultimately show ?thesis using assms(2,3) by (auto dest: inj_onD)
qed

lemma db_credentials_match_invariant:
  assumes "db_invariant m"
  shows "db_credentials_match H n p m
     = (m, Inr (\<exists>c \<in> set m. auth c = BasicAuthCredentials n (H p)))"
proof (cases "get_credentials_by_username m n")
  case None
  then have "\<forall>c \<in> set m. username (auth c) \<noteq> n"
    by (simp add: get_credentials_by_username_None)
  then have "\<not> (\<exists>c \<in> set m. auth c = BasicAuthCredentials n (H p))" by auto
  with None show ?thesis
    by (simp add: db_credentials_match_def transact_def db_credentials_match_body_def)
next
  case (Some c0)
  from get_credentials_by_username_Some [OF Some]
  have c0: "c0 \<in> set m" "username (auth c0) = n" by simp_all
  have "(\<exists>c \<in> set m. auth c = BasicAuthCredentials n (H p)) \<longleftrightarrow> password (auth c0) = H p"
  proof
    assume "\<exists>c \<in> set m. auth c = BasicAuthCredentials n (H p)"
    then obtain c where c: "c \<in> set m" "auth c = BasicAuthCredentials n (H p)" by blast
    with c0 db_same_username_same_record [OF assms c0(1) c(1)] show "password (auth c0) = H p"
      by simp
  next
    assume "password (auth c0) = H p"
    with c0 have "auth c0 = BasicAuthCredentials n (H p)" by (cases "auth c0") simp
    with c0(1) show "\<exists>c \<in> set m. auth c = BasicAuthCredentials n (H p)" by blast
  qed
  with Some show ?thesis
    by (simp add: db_credentials_match_def transact_def db_credentials_match_body_def
        password_match_def)
qed

section \<open>Uniqueness of usernames\<close>

lemma mem_create_duplicate:
  assumes "wf_items (items st)"
    and "get_auth g (prep_token H (details_get d ''token'')) = Inr a"
    and "owned_by_other (items st) u (username a)"
    and "d ''user'' = Some u"
  shows "snd (mem_create H g d st) = Inl InvalidResourceDetails
     \<and> items (fst (mem_create H g d st)) = items st"
proof -
  from assms have "mem_create_body H g d st = (st, Inl InvalidResourceDetails)"
    by (simp add: mem_create_body_def details_item_def check_duplicated_username_wf)
  then show ?thesis by (simp add: mem_create_snd mem_create_items)
qed

lemma mem_update_duplicate:
  assumes "wf_items (items st)"
    and "get_auth g (prep_token H (details_get d ''token'')) = Inr a"
    and "owned_by_other (items st) u (username a)"
  shows "snd (mem_update H g u d st) = Inl InvalidResourceDetails
     \<and> items (fst (mem_update H g u d st)) = items st"
proof -
  from assms have "mem_update_body H g u d st = (st, Inl InvalidResourceDetails)"
    by (simp add: mem_update_body_def check_duplicated_username_wf)
  then show ?thesis by (simp add: mem_update_snd mem_update_items)
qed

lemma db_create_duplicate:
  assumes "db_invariant m"
    and "get_auth g (details_get d ''token'') = Inr a"
    and "db_owned_by_other m u (username a)"
    and "d ''user'' = Some u"
  shows "db_create H g d m =
     (m, Inl (if is_known_user m u then ResourceAlreadyExists u else InvalidResourceDetails))"
  using assms
  by (simp add: db_create_def transact_def db_create_body_def details_item_def
      db_check_owned db_invariant_def)

lemma db_update_duplicate:
  assumes "db_invariant m"
    and "get_auth g (details_get d ''token'') = Inr a"
    and "db_owned_by_other m u (username a)"
  shows "db_update H g u d m =
     (m, Inl (if is_known_user m u then InvalidResourceDetails else ResourceNotFound u))"
  using assms
  by (simp add: db_update_def transact_def db_update_body_def db_check_owned db_invariant_def)

text \<open>
  C1 (as amended). Every sequence of create, update and delete calls, with
  well-formed generated pairs, keeps the invariant of either store: no two records
  with distinct user keys carry the same username. In the in-memory store (with
  well-formed stored tokens) a create or update whose token's username is the
  username of another user's record raises \<open>InvalidDetails\<close> and leaves the items as
  they are. In the database-backed store such a call leaves the model as it is and
  raises \<open>InvalidDetails\<close> unless the check of the user key fails first: create for a
  known user raises \<open>AlreadyExists\<close>, update for an unknown user raises \<open>NotFound\<close>.
\<close>

theorem username_uniqueness_preserved:
  "(store_invariant (items st) \<and> list_all generated_ok ops \<longrightarrow>
      store_invariant (items (mem_run H ops st))
      \<and> unique_usernames (items (mem_run H ops st)))
   \<and> (db_invariant m \<longrightarrow>
      db_invariant (db_run H ops m) \<and> db_unique_usernames (db_run H ops m))
   \<and> store_invariant (items empty_store) \<and> db_invariant []
   \<and> (wf_items (items st)
        \<and> get_auth g (prep_token H (details_get d ''token'')) = Inr a
        \<and> owned_by_other (items st) u (username a) \<longrightarrow>
      (d ''user'' = Some u \<longrightarrow>
         snd (mem_create H g d st) = Inl InvalidResourceDetails
         \<and> items (fst (mem_create H g d st)) = items st)
      \<and> snd (mem_update H g u d st) = Inl InvalidResourceDetails
      \<and> items (fst (mem_update H g u d st)) = items st)
   \<and> (db_invariant m
        \<and> get_auth g (details_get d ''token'') = Inr b
        \<and> db_owned_by_other m u (username b) \<longrightarrow>
      (d ''user'' = Some u \<longrightarrow>
         db_create H g d m =
           (m, Inl (if is_known_user m u then ResourceAlreadyExists u
                    else InvalidResourceDetails)))
      \<and> db_update H g u d m =
           (m, Inl (if is_known_user m u then InvalidResourceDetails
                    else ResourceNotFound u)))"
proof -
  have 1: "store_invariant (items st) \<and> list_all generated_ok ops \<longrightarrow>
      store_invariant (items (mem_run H ops st))
      \<and> unique_usernames (items (mem_run H ops st))"
    using mem_run_invariant [of st ops H] by (simp add: store_invariant_def)
  have 2: "db_invariant m \<longrightarrow>
      db_invariant (db_run H ops m) \<and> db_unique_usernames (db_run H ops m)"
    using db_run_db_invariant [of m H ops] by (simp add: db_invariant_def)
  have 3: "wf_items (items st)
        \<and> get_auth g (prep_token H (details_get d ''token'')) = Inr a
        \<and> owned_by_other (items st) u (username a) \<longrightarrow>
      (d ''user'' = Some u \<longrightarrow>
         snd (mem_create H g d st) = Inl InvalidResourceDetails
         \<and> items (fst (mem_create H g d st)) = items st)
      \<and> snd (mem_update H g u d st) = Inl InvalidResourceDetails
      \<and> items (fst (mem_update H g u d st)) = items st"
    using mem_create_duplicate [of st g H d a u] mem_update_duplicate [of st g H d a u]
    by blast
  have 4: "db_invariant m
        \<and> get_auth g (details_get d ''token'') = Inr b
        \<and> db_owned_by_other m u (username b) \<longrightarrow>
      (d ''user'' = Some u \<longrightarrow>
         db_create H g d m =
           (m, Inl (if is_known_user m u then ResourceAlreadyExists u
                    else InvalidResourceDetails)))
      \<and> db_update H g u d m =
           (m, Inl (if is_known_user m u then InvalidResourceDetails
                    else ResourceNotFound u))"
    using db_create_duplicate [of m g d b u H] db_update_duplicate [of m g d b u H]
    by blast
  from 1 2 3 4 empty_store_invariant empty_db_invariant show ?thesis by blast
qed

theorem username_uniqueness_preserved_witness:
  "store_invariant (items empty_store) \<and> list_all generated_ok scenario
   \<and> unique_usernames (items (mem_run checksum_hex scenario empty_store))
   \<and> db_unique_usernames (db_run checksum_hex scenario [])
   \<and> snd (mem_create checksum_hex generated_pair bob_details alice_store)
       = Inl InvalidResourceDetails
   \<and> items (fst (mem_create checksum_hex generated_pair bob_details alice_store))
       = items alice_store
   \<and> db_create checksum_hex generated_pair bob_details alice_model
       = (alice_model, Inl InvalidResourceDetails)
   \<and> db_update checksum_hex generated_pair bob bob_details alice_model
       = (alice_model, Inl (ResourceNotFound bob))"
proof -
  have g: "list_all generated_ok scenario"
    by (simp add: scenario_def wellformed_def colon_free_def generated_pair_def)
  have sa: "stored_auth [''user'' \<mapsto> alice, ''token'' \<mapsto> PStr ''alice_login:77'']
      = Some (BasicAuthCredentials ''alice_login'' ''77'')"
    by (simp add: stored_auth_def from_token_def)
  have wf: "wf_items (items alice_store)"
    by (simp add: wf_items_def alice_store_def sa)
  have inv: "db_invariant alice_model"
    by (simp add: db_invariant_def db_unique_usernames_def alice_model_def)
  have a: "get_auth generated_pair (prep_token checksum_hex (details_get bob_details ''token''))
      = Inr (BasicAuthCredentials ''alice_login'' ''69'')"
    by (simp add: sample_defs codec_defs checksum_hex_other)
  have b: "get_auth generated_pair (details_get bob_details ''token'')
      = Inr (BasicAuthCredentials ''alice_login'' ''other'')"
    by (simp add: sample_defs codec_defs)
  have o: "owned_by_other (items alice_store) bob ''alice_login''"
    by (simp add: owned_by_other_def alice_store_def sa) (simp add: alice_def bob_def)
  have o': "db_owned_by_other alice_model bob ''alice_login''"
    by (simp add: db_owned_by_other_def sample_defs)
  have u: "bob_details ''user'' = Some bob" by (simp add: bob_details_def)
  have k: "\<not> is_known_user alice_model bob" by (simp add: is_known_user_def sample_defs)
  show ?thesis
    using username_uniqueness_preserved [where st = empty_store and ops = scenario
        and H = checksum_hex and m = "[]"]
      username_uniqueness_preserved [where st = alice_store and H = checksum_hex
        and m = alice_model and g = generated_pair and d = bob_details and u = bob
        and a = "BasicAuthCredentials ''alice_login'' ''69''"
        and b = "BasicAuthCredentials ''alice_login'' ''other''"]
      g wf inv a b o o' u k
    by simp
qed

theorem db_create_known_user_not_invalid_details:
  "db_owned_by_other alice_bob_model bob ''alice_login''
   \<and> get_auth generated_pair (details_get bob_details ''token'')
       = Inr (BasicAuthCredentials ''alice_login'' ''other'')
   \<and> db_create checksum_hex generated_pair bob_details alice_bob_model
       = (alice_bob_model, Inl (ResourceAlreadyExists bob))"
  by (simp add: db_owned_by_other_def db_create_def transact_def db_create_body_def
      is_known_user_def sample_defs codec_defs)

section \<open>Update and delete of an absent user\<close>

lemma mem_update_absent:
  assumes "u \<notin> set (map fst (items st))"
  shows "snd (mem_update H g u d st) =
           Inl (case get_auth g (prep_token H (details_get d ''token'')) of
                  Inl e \<Rightarrow> e
                | Inr a \<Rightarrow>
                    (case check_duplicated_username (items st) u (username a) of
                       Inl e \<Rightarrow> e
                     | Inr _ \<Rightarrow> ResourceNotFound u))
     \<and> items (fst (mem_update H g u d st)) = items st"
  using assms
  by (simp add: mem_update_snd mem_update_items mem_update_body_def sample_update_def
      split: sum.splits)

lemma mem_delete_snd:
  "snd (mem_delete u st) =
     (if u \<in> set (map fst (items st)) then Inr () else Inl (ResourceNotFound u))"
  by (simp add: mem_delete_conv locked_result sample_delete_def)

lemma mem_delete_items:
  "items (fst (mem_delete u st)) =
     (if u \<in> set (map fst (items st)) then AList.delete u (items st) else items st)"
  by (simp add: mem_delete_conv locked_items sample_delete_def)

lemma mem_delete_twice:
  assumes "u \<in> set (map fst (items st))"
  shows "snd (mem_delete u st) = Inr ()
     \<and> u \<notin> set (map fst (items (fst (mem_delete u st))))
     \<and> snd (mem_delete u (fst (mem_delete u st))) = Inl (ResourceNotFound u)
     \<and> items (fst (mem_delete u (fst (mem_delete u st)))) = items (fst (mem_delete u st))"
proof -
  have gone: "u \<notin> set (map fst (AList.delete u (items st)))"
    using delete_notin_dom [of u "items st"] by simp
  with assms show ?thesis by (simp add: mem_delete_snd mem_delete_items)
qed

text \<open>
  C7 (as amended). In the database-backed store, update for a user the model does
  not know raises \<open>NotFound\<close> and leaves the model as it is. In the in-memory store,
  update for a user without a record raises an error and leaves the items as they
  are; the error is that of the token step or of the duplicate-username check, which
  run first, and \<open>NotFound\<close> when both pass. In both stores, when the user has a
  record, a first delete succeeds and a second delete, run on the result, raises
  \<open>NotFound\<close> and changes nothing.
\<close>

theorem update_delete_not_found_per_store:
  "(\<not> is_known_user m u \<longrightarrow> db_update H g u d m = (m, Inl (ResourceNotFound u)))
   \<and> (is_known_user m u \<longrightarrow>
        snd (db_delete u m) = Inr ()
        \<and> \<not> is_known_user (fst (db_delete u m)) u
        \<and> db_delete u (fst (db_delete u m)) = (fst (db_delete u m), Inl (ResourceNotFound u)))
   \<and> (u \<notin> set (map fst (items st)) \<longrightarrow>
        snd (mem_update H g u d st) =
           Inl (case get_auth g (prep_token H (details_get d ''token'')) of
                  Inl e \<Rightarrow> e
                | Inr a \<Rightarrow>
                    (case check_duplicated_username (items st) u (username a) of
                       Inl e \<Rightarrow> e
                     | Inr _ \<Rightarrow> ResourceNotFound u))
        \<and> items (fst (mem_update H g u d st)) = items st)
   \<and> (u \<in> set (map fst (items st)) \<longrightarrow>
        snd (mem_delete u st) = Inr ()
        \<and> u \<notin> set (map fst (items (fst (mem_delete u st))))
        \<and> snd (mem_delete u (fst (mem_delete u st))) = Inl (ResourceNotFound u)
        \<and> items (fst (mem_delete u (fst (mem_delete u st)))) = items (fst (mem_delete u st)))"
proof -
  have 1: "\<not> is_known_user m u \<longrightarrow> db_update H g u d m = (m, Inl (ResourceNotFound u))"
    by (simp add: db_update_def transact_def db_update_body_def)
  have 2: "is_known_user m u \<longrightarrow>
        snd (db_delete u m) = Inr ()
        \<and> \<not> is_known_user (fst (db_delete u m)) u
        \<and> db_delete u (fst (db_delete u m)) = (fst (db_delete u m), Inl (ResourceNotFound u))"
  proof
    assume k: "is_known_user m u"
    then have nk: "\<not> is_known_user (fst (db_delete u m)) u"
      by (simp add: db_delete_fst not_known_after_remove)
    have "db_delete u (fst (db_delete u m)) = (fst (db_delete u m), Inl (ResourceNotFound u))"
      using nk db_delete_fst [of u "fst (db_delete u m)"]
        db_delete_snd [of u "fst (db_delete u m)"]
      by (simp add: prod_eq_iff)
    with k nk show "snd (db_delete u m) = Inr ()
        \<and> \<not> is_known_user (fst (db_delete u m)) u
        \<and> db_delete u (fst (db_delete u m)) = (fst (db_delete u m), Inl (ResourceNotFound u))"
      by (simp add: db_delete_snd)
  qed
  from 1 2 mem_update_absent [of u st H g d] mem_delete_twice [of u st]
  show ?thesis by blast
qed

theorem update_delete_not_found_per_store_witness:
  "\<not> is_known_user alice_model bob
   \<and> db_update checksum_hex generated_pair bob bob_details alice_model
       = (alice_model, Inl (ResourceNotFound bob))
   \<and> is_known_user alice_model alice
   \<and> db_delete alice alice_model = ([], Inr ())
   \<and> db_delete alice [] = ([], Inl (ResourceNotFound alice))
   \<and> bob \<notin> set (map fst (items alice_store))
   \<and> snd (mem_update checksum_hex generated_pair bob [''token'' \<mapsto> PStr ''bob_login:pw'']
          alice_store) = Inl (ResourceNotFound bob)
   \<and> alice \<in> set (map fst (items alice_store))
   \<and> snd (mem_delete alice alice_store) = Inr ()
   \<and> snd (mem_delete alice (fst (mem_delete alice alice_store)))
       = Inl (ResourceNotFound alice)"
proof -
  have a: "\<not> is_known_user alice_model bob" "is_known_user alice_model alice"
    by (simp_all add: is_known_user_def sample_defs)
  have b: "fst (db_delete alice alice_model) = []"
    by (simp add: db_delete_fst a remove_credentials_def) (simp add: sample_defs)
  have c: "bob \<notin> set (map fst (items alice_store))" "alice \<in> set (map fst (items alice_store))"
    by (simp_all add: sample_defs)
  have t: "get_auth generated_pair
      (prep_token checksum_hex (details_get [''token'' \<mapsto> PStr ''bob_login:pw''] ''token''))
      = Inr (BasicAuthCredentials ''bob_login'' ''4e'')"
    by (simp add: codec_defs checksum_hex_def hex_digit_def)
  have k: "check_duplicated_username (items alice_store) bob ''bob_login'' = Inr ()"
    by (simp add: sample_defs codec_defs)
  show ?thesis
    using update_delete_not_found_per_store [where m = alice_model and u = bob
        and H = checksum_hex and g = generated_pair and d = bob_details and st = alice_store]
      update_delete_not_found_per_store [where m = alice_model and u = alice
        and H = checksum_hex and g = generated_pair and d = bob_details and st = alice_store]
      update_delete_not_found_per_store [where m = alice_model and u = bob
        and H = checksum_hex and g = generated_pair
        and d = "[''token'' \<mapsto> PStr ''bob_login:pw'']" and st = alice_store]
      a b c t k
    by (simp add: prod_eq_iff)
qed

theorem mem_update_absent_user_not_not_found:
  "PStr ''carol'' \<notin> set (map fst (items alice_store))
   \<and> snd (mem_update checksum_hex generated_pair (PStr ''carol'')
          [''token'' \<mapsto> PStr ''alice_login:pw''] alice_store)
       = Inl InvalidResourceDetails"
  by (simp add: mem_update_snd mem_update_body_def sample_defs codec_defs
      checksum_hex_def hex_digit_def)

section \<open>What create returns and what is stored\<close>

lemma db_get_after_add:
  "\<not> is_known_user m u \<Longrightarrow>
     snd (db_get u (add_credentials H m u n pw))
       = Inr [''user'' \<mapsto> u, ''token'' \<mapsto> PStr (n @ CHR '':'' # H pw)]"
  by (simp add: db_get_snd get_after_add str_auth_def)

lemma db_check_not_owned:
  assumes "\<not> db_owned_by_other m u n"
  shows "db_check_duplicated_username m u n = Inr ()"
proof (cases "get_credentials_by_username m n")
  case None
  then show ?thesis by (simp add: db_check_duplicated_username_def)
next
  case (Some c)
  from get_credentials_by_username_Some [OF Some] assms have "user c = u"
    by (auto simp: db_owned_by_other_def)
  with Some show ?thesis by (simp add: db_check_duplicated_username_def)
qed

text \<open>
  C6 (as amended). In the database-backed store, create for a user the model already
  knows raises \<open>AlreadyExists\<close>, whatever the token, so this check comes before the
  username check. For an unknown user and a token that yields a pair, create raises
  \<open>InvalidDetails\<close> if a record of another user has the pair's username, and only
  otherwise persists the credentials through the model and returns the user with
  the details \<open>{'user': user, 'token': str(auth)}\<close>. The token returned is built from
  the password as submitted (or generated); the stored representation, which a
  later get returns, has the digest of that password. Every raise leaves the model
  as it is.
\<close>

theorem db_create_order_and_result:
  "d ''user'' = Some u \<longrightarrow>
     (is_known_user m u \<longrightarrow> db_create H g d m = (m, Inl (ResourceAlreadyExists u)))
   \<and> (\<not> is_known_user m u \<and> get_auth g (details_get d ''token'') = Inr a \<longrightarrow>
        (db_owned_by_other m u (username a) \<longrightarrow>
           db_create H g d m = (m, Inl InvalidResourceDetails))
      \<and> (\<not> db_owned_by_other m u (username a) \<longrightarrow>
           db_create H g d m =
             (add_credentials H m u (username a) (password a),
              Inr (u, [''user'' \<mapsto> u, ''token'' \<mapsto> PStr (username a @ CHR '':'' # password a)]))
           \<and> snd (db_get u (fst (db_create H g d m)))
               = Inr [''user'' \<mapsto> u,
                      ''token'' \<mapsto> PStr (username a @ CHR '':'' # H (password a))]))"
proof (intro impI conjI)
  assume d: "d ''user'' = Some u"
  {
    assume "is_known_user m u"
    with d show "db_create H g d m = (m, Inl (ResourceAlreadyExists u))"
      by (simp add: db_create_def transact_def db_create_body_def details_item_def)
  }
  {
    assume h: "\<not> is_known_user m u \<and> get_auth g (details_get d ''token'') = Inr a"
    then have own: "db_owned_by_other m u (username a)
        \<longleftrightarrow> (\<exists>c \<in> set m. username (auth c) = username a)"
      by (auto simp: db_owned_by_other_def is_known_user_def)
    {
      assume "db_owned_by_other m u (username a)"
      with d h own show "db_create H g d m = (m, Inl InvalidResourceDetails)"
        by (simp add: db_create_def transact_def db_create_body_def details_item_def
            db_check_unknown)
    }
    {
      assume "\<not> db_owned_by_other m u (username a)"
      with d h own show c: "db_create H g d m =
             (add_credentials H m u (username a) (password a),
              Inr (u, [''user'' \<mapsto> u, ''token'' \<mapsto> PStr (username a @ CHR '':'' # password a)]))"
        by (simp add: db_create_def transact_def db_create_body_def details_item_def
            db_check_unknown str_auth_def)
      from h show "snd (db_get u (fst (db_create H g d m)))
               = Inr [''user'' \<mapsto> u,
                      ''token'' \<mapsto> PStr (username a @ CHR '':'' # H (password a))]"
        by (simp add: c db_get_after_add)
    }
  }
qed

theorem db_create_order_and_result_witness:
  "db_create checksum_hex generated_pair alice_details alice_model
     = (alice_model, Inl (ResourceAlreadyExists alice))
   \<and> db_create checksum_hex generated_pair bob_details alice_model
     = (alice_model, Inl InvalidResourceDetails)
   \<and> db_create checksum_hex generated_pair alice_details []
     = (alice_model, Inr (alice, [''user'' \<mapsto> alice, ''token'' \<mapsto> PStr ''alice_login:secret'']))"
proof -
  have d: "alice_details ''user'' = Some alice" "bob_details ''user'' = Some bob"
    by (simp_all add: sample_defs)
  have k: "is_known_user alice_model alice" "\<not> is_known_user alice_model bob"
    "\<not> is_known_user [] alice"
    by (simp_all add: is_known_user_def sample_defs)
  have a: "get_auth generated_pair (details_get bob_details ''token'')
             = Inr (BasicAuthCredentials ''alice_login'' ''other'')"
    "get_auth generated_pair (details_get alice_details ''token'')
             = Inr (BasicAuthCredentials ''alice_login'' ''secret'')"
    by (simp_all add: sample_defs codec_defs)
  have o: "db_owned_by_other alice_model bob ''alice_login''"
    "\<not> db_owned_by_other [] alice ''alice_login''"
    by (simp_all add: db_owned_by_other_def sample_defs)
  show ?thesis
    using db_create_order_and_result [where d = alice_details and u = alice
        and m = alice_model and H = checksum_hex and g = generated_pair
        and a = "BasicAuthCredentials ''alice_login'' ''secret''"]
      db_create_order_and_result [where d = bob_details and u = bob
        and m = alice_model and H = checksum_hex and g = generated_pair
        and a = "BasicAuthCredentials ''alice_login'' ''other''"]
      db_create_order_and_result [where d = alice_details and u = alice
        and m = "[]" and H = checksum_hex and g = generated_pair
        and a = "BasicAuthCredentials ''alice_login'' ''secret''"]
      d k a o
    by (simp add: add_credentials_def checksum_hex_secret alice_model_def)
qed

theorem db_create_returns_submitted_token:
  "snd (db_create checksum_hex generated_pair alice_details [])
     = Inr (alice, [''user'' \<mapsto> alice, ''token'' \<mapsto> PStr ''alice_login:secret''])
   \<and> snd (db_get alice (fst (db_create checksum_hex generated_pair alice_details [])))
     = Inr [''user'' \<mapsto> alice, ''token'' \<mapsto> PStr ''alice_login:77'']"
proof -
  have c: "db_create checksum_hex generated_pair alice_details []
      = (alice_model, Inr (alice, [''user'' \<mapsto> alice, ''token'' \<mapsto> PStr ''alice_login:secret'']))"
    by (simp add: db_create_def transact_def db_create_body_def is_known_user_def
        db_check_duplicated_username_def get_credentials_by_username_def add_credentials_def
        sample_defs codec_defs checksum_hex_secret)
  show ?thesis
    by (simp add: c db_get_snd get_credentials_by_user_def alice_model_def str_auth_def)
qed

section \<open>A missing token: when the call succeeds\<close>

lemma mem_create_missing_success:
  assumes "token_missing d" "wf_items (items st)" "d ''user'' = Some k"
    "k \<notin> set (map fst (items st))" "\<not> owned_by_other (items st) k (username g)"
  shows "snd (mem_create H g d st) = Inr (k, d(''token'' \<mapsto> PStr (str_auth g)))
     \<and> items (fst (mem_create H g d st))
         = AList.update k (d(''token'' \<mapsto> PStr (str_auth g))) (items st)"
  using assms
  by (simp add: mem_create_snd mem_create_items mem_create_body_def missing_token_get
      details_item_def check_duplicated_username_wf sample_create_def)

lemma mem_update_missing_success:
  assumes "token_missing d" "wf_items (items st)"
    "u \<in> set (map fst (items st))" "\<not> owned_by_other (items st) u (username g)"
  shows "snd (mem_update H g u d st) = Inr (d(''token'' \<mapsto> PStr (str_auth g)))
     \<and> items (fst (mem_update H g u d st))
         = AList.update u (d(''token'' \<mapsto> PStr (str_auth g))) (items st)"
  using assms
  by (simp add: mem_update_snd mem_update_items mem_update_body_def missing_token_get
      check_duplicated_username_wf sample_update_def)

lemma db_create_missing_success:
  assumes "token_missing d" "d ''user'' = Some k" "\<not> is_known_user m k"
    "\<not> db_owned_by_other m k (username g)"
  shows "db_create H g d m =
     (add_credentials H m k (username g) (password g),
      Inr (k, [''user'' \<mapsto> k, ''token'' \<mapsto> PStr (str_auth g)]))"
  using assms
  by (simp add: db_create_def transact_def db_create_body_def details_item_def
      missing_token_get db_check_not_owned)

lemma db_update_missing_success:
  assumes "token_missing d" "is_known_user m u" "\<not> db_owned_by_other m u (username g)"
  shows "db_update H g u d m =
     (update_credentials H m u (username g) (password g),
      Inr [''user'' \<mapsto> u, ''token'' \<mapsto> PStr (str_auth g)])"
  using assms
  by (simp add: db_update_def transact_def db_update_body_def missing_token_get
      db_check_not_owned)

text \<open>
  C9 (as amended). When the details of a create or update have no \<open>'token'\<close> key, a
  token of \<open>None\<close> or the empty string, the token step yields the pair of
  \<open>BasicAuthCredentials.generate()\<close> and no malformed-token error is raised (in the
  in-memory store the scan parses the stored tokens, which are well-formed). When
  the checks of the user key and of the username pass, the call succeeds and
  returns the serialized generated pair as the token. The in-memory store keeps that
  serialized form as the user's record. The database-backed store hands the
  generated username and password to the persistence model, whose record has the
  digest of the password.
\<close>

theorem missing_token_uses_generated_pair:
  assumes "token_missing d"
  shows "get_auth g (prep_token H (details_get d ''token'')) = Inr g
     \<and> get_auth g (details_get d ''token'') = Inr g
     \<and> (wf_items (items st) \<longrightarrow>
          snd (mem_create H g d st) \<noteq> Inl MalformedToken
          \<and> snd (mem_update H g u d st) \<noteq> Inl MalformedToken)
     \<and> snd (db_create H g d m) \<noteq> Inl MalformedToken
     \<and> snd (db_update H g u d m) \<noteq> Inl MalformedToken
     \<and> (wf_items (items st) \<and> d ''user'' = Some k \<and> k \<notin> set (map fst (items st))
          \<and> \<not> owned_by_other (items st) k (username g) \<longrightarrow>
          snd (mem_create H g d st) = Inr (k, d(''token'' \<mapsto> PStr (str_auth g)))
          \<and> items (fst (mem_create H g d st))
              = AList.update k (d(''token'' \<mapsto> PStr (str_auth g))) (items st))
     \<and> (wf_items (items st) \<and> u \<in> set (map fst (items st))
          \<and> \<not> owned_by_other (items st) u (username g) \<longrightarrow>
          snd (mem_update H g u d st) = Inr (d(''token'' \<mapsto> PStr (str_auth g)))
          \<and> items (fst (mem_update H g u d st))
              = AList.update u (d(''token'' \<mapsto> PStr (str_auth g))) (items st))
     \<and> (d ''user'' = Some k \<and> \<not> is_known_user m k
          \<and> \<not> db_owned_by_other m k (username g) \<longrightarrow>
          db_create H g d m =
            (m @ [Credentials k (BasicAuthCredentials (username g) (H (password g)))],
             Inr (k, [''user'' \<mapsto> k, ''token'' \<mapsto> PStr (str_auth g)])))
     \<and> (is_known_user m u \<and> \<not> db_owned_by_other m u (username g) \<longrightarrow>
          db_update H g u d m =
            (map (\<lambda>c. if user c = u
                      then Credentials u (BasicAuthCredentials (username g) (H (password g)))
                      else c) m,
             Inr [''user'' \<mapsto> u, ''token'' \<mapsto> PStr (str_auth g)]))
     \<and> (snd (mem_create H g d st) = Inr r \<longrightarrow>
          snd r ''token'' = Some (PStr (str_auth g))
          \<and> map_of (items (fst (mem_create H g d st))) (fst r) = Some (snd r))
     \<and> (snd (mem_update H g u d st) = Inr r' \<longrightarrow>
          r' ''token'' = Some (PStr (str_auth g))
          \<and> map_of (items (fst (mem_update H g u d st))) u = Some r')
     \<and> (snd (db_create H g d m) = Inr r \<longrightarrow>
          snd r ''token'' = Some (PStr (str_auth g))
          \<and> fst (db_create H g d m) = add_credentials H m (fst r) (username g) (password g))
     \<and> (snd (db_update H g u d m) = Inr r' \<longrightarrow>
          r' ''token'' = Some (PStr (str_auth g))
          \<and> fst (db_update H g u d m) = update_credentials H m u (username g) (password g))"
  using missing_token_get [OF assms]
    mem_create_missing_token [OF assms, of st H g r]
    mem_update_missing_token [OF assms, of st H g u r']
    db_create_missing_token [OF assms, of H g m r]
    db_update_missing_token [OF assms, of H g u m r']
    mem_create_missing_success [OF assms, of st k g H]
    mem_update_missing_success [OF assms, of st u g H]
    db_create_missing_success [OF assms, of k m g H]
    db_update_missing_success [OF assms, of m u g H]
  by (simp add: add_credentials_def update_credentials_def)

theorem missing_token_uses_generated_pair_witness:
  "token_missing [''user'' \<mapsto> bob] \<and> token_missing [''user'' \<mapsto> alice, ''token'' \<mapsto> PStr []]
   \<and> snd (mem_create checksum_hex generated_pair [''user'' \<mapsto> bob] alice_store)
       = Inr (bob, [''user'' \<mapsto> bob, ''token'' \<mapsto> PStr ''k3x9v:q7w2e5r8''])
   \<and> snd (mem_update checksum_hex generated_pair alice
          [''user'' \<mapsto> alice, ''token'' \<mapsto> PStr []] alice_store)
       = Inr [''user'' \<mapsto> alice, ''token'' \<mapsto> PStr ''k3x9v:q7w2e5r8'']
   \<and> db_create checksum_hex generated_pair [''user'' \<mapsto> bob] alice_model
       = (alice_model @ [Credentials bob (BasicAuthCredentials ''k3x9v'' ''fe'')],
          Inr (bob, [''user'' \<mapsto> bob, ''token'' \<mapsto> PStr ''k3x9v:q7w2e5r8'']))
   \<and> db_update checksum_hex generated_pair alice
          [''user'' \<mapsto> alice, ''token'' \<mapsto> PStr []] alice_model
       = ([Credentials alice (BasicAuthCredentials ''k3x9v'' ''fe'')],
          Inr [''user'' \<mapsto> alice, ''token'' \<mapsto> PStr ''k3x9v:q7w2e5r8''])"
proof -
  let ?d = "[''user'' \<mapsto> bob]"
  let ?e = "[''user'' \<mapsto> alice, ''token'' \<mapsto> PStr []]"
  have t: "token_missing ?d" "token_missing ?e" by (simp_all add: token_missing_def)
  have h: "checksum_hex ''q7w2e5r8'' = ''fe''"
    by (simp add: checksum_hex_def hex_digit_def)
  have sa: "stored_auth [''user'' \<mapsto> alice, ''token'' \<mapsto> PStr ''alice_login:77'']
      = Some (BasicAuthCredentials ''alice_login'' ''77'')"
    by (simp add: stored_auth_def from_token_def)
  have wf: "wf_items (items alice_store)"
    by (simp add: wf_items_def alice_store_def sa)
  have u: "?d ''user'' = Some bob" by simp
  have k: "bob \<notin> set (map fst (items alice_store))" "alice \<in> set (map fst (items alice_store))"
    by (simp_all add: sample_defs)
  have o: "\<not> owned_by_other (items alice_store) bob (username generated_pair)"
    "\<not> owned_by_other (items alice_store) alice (username generated_pair)"
    by (simp_all add: owned_by_other_def alice_store_def sa generated_pair_def)
  have n: "\<not> is_known_user alice_model bob" "is_known_user alice_model alice"
    by (simp_all add: is_known_user_def sample_defs)
  have o': "\<not> db_owned_by_other alice_model bob (username generated_pair)"
    "\<not> db_owned_by_other alice_model alice (username generated_pair)"
    by (simp_all add: db_owned_by_other_def sample_defs)
  have g: "str_auth generated_pair = ''k3x9v:q7w2e5r8''" "username generated_pair = ''k3x9v''"
    "password generated_pair = ''q7w2e5r8''"
    by (simp_all add: str_auth_def generated_pair_def)
  note create = missing_token_uses_generated_pair [OF t(1), where H = checksum_hex
      and g = generated_pair and st = alice_store and m = alice_model and k = bob]
  note update = missing_token_uses_generated_pair [OF t(2), where H = checksum_hex
      and g = generated_pair and st = alice_store and m = alice_model and u = alice]
  note rest = conjunct2 [OF conjunct2 [OF conjunct2 [OF conjunct2 [OF conjunct2]]]]
  from create [THEN rest, THEN conjunct1] wf u k(1) o(1)
  have "snd (mem_create checksum_hex generated_pair ?d alice_store)
       = Inr (bob, ?d(''token'' \<mapsto> PStr (str_auth generated_pair)))"
    by blast
  then have 1: "snd (mem_create checksum_hex generated_pair ?d alice_store)
       = Inr (bob, [''user'' \<mapsto> bob, ''token'' \<mapsto> PStr ''k3x9v:q7w2e5r8''])"
    by (simp add: g)
  from update [THEN rest, THEN conjunct2, THEN conjunct1] wf k(2) o(2)
  have "snd (mem_update checksum_hex generated_pair alice ?e alice_store)
       = Inr (?e(''token'' \<mapsto> PStr (str_auth generated_pair)))"
    by blast
  then have 2: "snd (mem_update checksum_hex generated_pair alice ?e alice_store)
       = Inr [''user'' \<mapsto> alice, ''token'' \<mapsto> PStr ''k3x9v:q7w2e5r8'']"
    by (simp add: g)
  from create [THEN rest, THEN conjunct2, THEN conjunct2, THEN conjunct1] u n(1) o'(1)
  have "db_create checksum_hex generated_pair ?d alice_model =
      (alice_model @ [Credentials bob (BasicAuthCredentials (username generated_pair)
          (checksum_hex (password generated_pair)))],
       Inr (bob, [''user'' \<mapsto> bob, ''token'' \<mapsto> PStr (str_auth generated_pair)]))"
    by blast
  then have 3: "db_create checksum_hex generated_pair ?d alice_model
       = (alice_model @ [Credentials bob (BasicAuthCredentials ''k3x9v'' ''fe'')],
          Inr (bob, [''user'' \<mapsto> bob, ''token'' \<mapsto> PStr ''k3x9v:q7w2e5r8'']))"
    by (simp add: g h)
  from update [THEN rest, THEN conjunct2, THEN conjunct2, THEN conjunct2, THEN conjunct1]
    n(2) o'(2)
  have "db_update checksum_hex generated_pair alice ?e alice_model =
      (map (\<lambda>c. if user c = alice
                then Credentials alice (BasicAuthCredentials (username generated_pair)
                       (checksum_hex (password generated_pair)))
                else c) alice_model,
       Inr [''user'' \<mapsto> alice, ''token'' \<mapsto> PStr (str_auth generated_pair)])"
    by blast
  then have 4: "db_update checksum_hex generated_pair alice ?e alice_model
       = ([Credentials alice (BasicAuthCredentials ''k3x9v'' ''fe'')],
          Inr [''user'' \<mapsto> alice, ''token'' \<mapsto> PStr ''k3x9v:q7w2e5r8''])"
    by (simp add: g h alice_model_def)
  from t 1 2 3 4 show ?thesis by simp
qed

theorem db_create_stores_digest_of_generated_password:
  "snd (db_create checksum_hex generated_pair [''user'' \<mapsto> bob] alice_model)
     = Inr (bob, [''user'' \<mapsto> bob, ''token'' \<mapsto> PStr ''k3x9v:q7w2e5r8''])
   \<and> snd (db_get bob (fst (db_create checksum_hex generated_pair [''user'' \<mapsto> bob] alice_model)))
     = Inr [''user'' \<mapsto> bob, ''token'' \<mapsto> PStr ''k3x9v:fe'']"
proof -
  have h: "checksum_hex ''q7w2e5r8'' = ''fe''"
    by (simp add: checksum_hex_def hex_digit_def)
  have c: "db_create checksum_hex generated_pair [''user'' \<mapsto> bob] alice_model
      = ([Credentials alice (BasicAuthCredentials ''alice_login'' ''77''),
          Credentials bob (BasicAuthCredentials ''k3x9v'' ''fe'')],
         Inr (bob, [''user'' \<mapsto> bob, ''token'' \<mapsto> PStr ''k3x9v:q7w2e5r8'']))"
    by (simp add: db_create_def transact_def db_create_body_def is_known_user_def
        db_check_duplicated_username_def get_credentials_by_username_def add_credentials_def
        sample_defs codec_defs h)
  have g: "snd (db_get bob [Credentials alice (BasicAuthCredentials ''alice_login'' ''77''),
          Credentials bob (BasicAuthCredentials ''k3x9v'' ''fe'')])
      = Inr [''user'' \<mapsto> bob, ''token'' \<mapsto> PStr ''k3x9v:fe'']"
    by (simp add: db_get_snd get_credentials_by_user_def alice_def bob_def str_auth_def)
  show ?thesis by (simp add: c g)
qed

section \<open>Create, then get: the token returned\<close>








text \<open>
  C2 (as amended). \<open>credentials_match(username, password)\<close> returns a boolean and
  never raises: true if and only if some stored record has exactly that username and
  a stored hash equal to the hash of the password, hence false when no record has
  the username. This holds in every state of the database-backed store that its
  operations reach, and in every state of the in-memory store that its operations
  reach (with well-formed generated pairs) for a username without a colon; the call
  changes neither store.
\<close>

theorem credentials_match_iff_record:
  "(wf_items (items st) \<and> colon_free n \<longrightarrow>
      snd (mem_credentials_match H n p st)
        = Inr (\<exists>(k, d) \<in> set (items st). stored_auth d = Some (BasicAuthCredentials n (H p)))
      \<and> items (fst (mem_credentials_match H n p st)) = items st)
   \<and> (db_invariant m \<longrightarrow>
      db_credentials_match H n p m
        = (m, Inr (\<exists>c \<in> set m. auth c = BasicAuthCredentials n (H p))))
   \<and> (list_all generated_ok ops \<and> colon_free n \<longrightarrow>
      snd (mem_credentials_match H n p (mem_run H ops empty_store))
        = Inr (\<exists>(k, d) \<in> set (items (mem_run H ops empty_store)).
                 stored_auth d = Some (BasicAuthCredentials n (H p))))
   \<and> db_credentials_match H n p (db_run H ops [])
        = (db_run H ops [],
           Inr (\<exists>c \<in> set (db_run H ops []). auth c = BasicAuthCredentials n (H p)))"
proof -
  have reach: "wf_items (items (mem_run H ops empty_store))" if "list_all generated_ok ops"
    using mem_run_invariant [OF empty_store_invariant that, of H]
    by (simp add: store_invariant_def)
  have db: "db_invariant (db_run H ops [])"
    using db_run_db_invariant [OF empty_db_invariant] .
  show ?thesis
    using mem_credentials_match_wf [of st n H p] mem_credentials_match_items [of H n p st]
      db_credentials_match_invariant [of m H n p]
      mem_credentials_match_wf [of "mem_run H ops empty_store" n H p] reach
      db_credentials_match_invariant [OF db, of H n p]
    by simp
qed

theorem credentials_match_iff_record_witness:
  "wf_items (items alice_store) \<and> colon_free ''alice_login'' \<and> db_invariant alice_model
   \<and> list_all generated_ok scenario
   \<and> snd (mem_credentials_match checksum_hex ''alice_login'' ''secret'' alice_store) = Inr True
   \<and> snd (mem_credentials_match checksum_hex ''alice_login'' ''wrong'' alice_store) = Inr False
   \<and> snd (mem_credentials_match checksum_hex ''nobody'' ''secret'' alice_store) = Inr False
   \<and> db_credentials_match checksum_hex ''alice_login'' ''secret'' alice_model
       = (alice_model, Inr True)
   \<and> db_credentials_match checksum_hex ''alice_login'' ''wrong'' alice_model
       = (alice_model, Inr False)
   \<and> db_credentials_match checksum_hex ''nobody'' ''secret'' alice_model
       = (alice_model, Inr False)
   \<and> snd (mem_credentials_match checksum_hex ''alice_login'' ''secret''
          (mem_run checksum_hex scenario empty_store))
       = Inr (\<exists>(k, d) \<in> set (items (mem_run checksum_hex scenario empty_store)).
                stored_auth d = Some (BasicAuthCredentials ''alice_login'' ''77''))"
proof -
  have sa: "stored_auth [''user'' \<mapsto> alice, ''token'' \<mapsto> PStr ''alice_login:77'']
      = Some (BasicAuthCredentials ''alice_login'' ''77'')"
    by (simp add: stored_auth_def from_token_def)
  have wf: "wf_items (items alice_store)"
    by (simp add: wf_items_def alice_store_def sa)
  have cf: "colon_free ''alice_login''" "colon_free ''nobody''"
    by (simp_all add: colon_free_def)
  have inv: "db_invariant alice_model"
    by (simp add: db_invariant_def db_unique_usernames_def alice_model_def)
  have g: "list_all generated_ok scenario"
    by (simp add: scenario_def wellformed_def colon_free_def generated_pair_def)
  note h = checksum_hex_secret checksum_hex_wrong
  note T = credentials_match_iff_record [where st = alice_store and H = checksum_hex
      and m = alice_model and ops = scenario]
  have m1: "snd (mem_credentials_match checksum_hex ''alice_login'' ''secret'' alice_store)
      = Inr True"
    using T [where n = "''alice_login''" and p = "''secret''", THEN conjunct1] wf cf
    by (simp add: alice_store_def sa h)
  have m2: "snd (mem_credentials_match checksum_hex ''alice_login'' ''wrong'' alice_store)
      = Inr False"
    using T [where n = "''alice_login''" and p = "''wrong''", THEN conjunct1] wf cf
    by (simp add: alice_store_def sa h)
  have m3: "snd (mem_credentials_match checksum_hex ''nobody'' ''secret'' alice_store)
      = Inr False"
    using T [where n = "''nobody''" and p = "''secret''", THEN conjunct1] wf cf
    by (simp add: alice_store_def sa h)
  have d1: "db_credentials_match checksum_hex ''alice_login'' ''secret'' alice_model
      = (alice_model, Inr True)"
    using T [where n = "''alice_login''" and p = "''secret''", THEN conjunct2, THEN conjunct1]
      inv
    by (simp add: alice_model_def h)
  have d2: "db_credentials_match checksum_hex ''alice_login'' ''wrong'' alice_model
      = (alice_model, Inr False)"
    using T [where n = "''alice_login''" and p = "''wrong''", THEN conjunct2, THEN conjunct1]
      inv
    by (simp add: alice_model_def h)
  have d3: "db_credentials_match checksum_hex ''nobody'' ''secret'' alice_model
      = (alice_model, Inr False)"
    using T [where n = "''nobody''" and p = "''secret''", THEN conjunct2, THEN conjunct1]
      inv
    by (simp add: alice_model_def h)
  have r: "snd (mem_credentials_match checksum_hex ''alice_login'' ''secret''
          (mem_run checksum_hex scenario empty_store))
       = Inr (\<exists>(k, d) \<in> set (items (mem_run checksum_hex scenario empty_store)).
                stored_auth d = Some (BasicAuthCredentials ''alice_login'' ''77''))"
    using T [where n = "''alice_login''" and p = "''secret''", THEN conjunct2, THEN conjunct2,
        THEN conjunct1] g cf
    by (simp add: h)
  from wf cf inv g m1 m2 m3 d1 d2 d3 r show ?thesis by simp
qed

theorem mem_credentials_match_username_with_colon:
  "items (fst (mem_create checksum_hex generated_pair
            [''user'' \<mapsto> alice, ''token'' \<mapsto> PStr ''u:p:77''] empty_store))
     = [(alice, [''user'' \<mapsto> alice, ''token'' \<mapsto> PStr ''u:p:77''])]
   \<and> snd (mem_credentials_match checksum_hex ''u:p'' ''secret''
          (fst (mem_create checksum_hex generated_pair
                  [''user'' \<mapsto> alice, ''token'' \<mapsto> PStr ''u:p:77''] empty_store)))
     = Inr True
   \<and> stored_auth [''user'' \<mapsto> alice, ''token'' \<mapsto> PStr ''u:p:77'']
     = Some (BasicAuthCredentials ''u'' ''p:77'')"
proof -
  have m: "mem_create_body checksum_hex generated_pair
          [''user'' \<mapsto> alice, ''token'' \<mapsto> PStr ''u:p:77''] empty_store
      = (\<lparr>items = [(alice, [''user'' \<mapsto> alice, ''token'' \<mapsto> PStr ''u:p:77''])],
          lock_events = []\<rparr>,
         Inr (alice, [''user'' \<mapsto> alice, ''token'' \<mapsto> PStr ''u:p:77'']))"
    by (simp add: mem_create_body_def sample_create_def sample_defs codec_defs)
  have i: "items (fst (mem_create checksum_hex generated_pair
            [''user'' \<mapsto> alice, ''token'' \<mapsto> PStr ''u:p:77''] empty_store))
     = [(alice, [''user'' \<mapsto> alice, ''token'' \<mapsto> PStr ''u:p:77''])]"
    by (simp add: mem_create_items m)
  have c: "snd (mem_credentials_match checksum_hex ''u:p'' ''secret''
          (fst (mem_create checksum_hex generated_pair
                  [''user'' \<mapsto> alice, ''token'' \<mapsto> PStr ''u:p:77''] empty_store)))
     = Inr True"
    by (simp add: mem_credentials_match_conv locked_result mem_credentials_match_body_def
        i details_item_def checksum_hex_secret)
  have s: "stored_auth [''user'' \<mapsto> alice, ''token'' \<mapsto> PStr ''u:p:77'']
     = Some (BasicAuthCredentials ''u'' ''p:77'')"
    by (simp add: stored_auth_def from_token_def)
  from i c s show ?thesis by simp
qed

end
